theory Spec2Isabelle
  imports Main "HOL-Library.Multiset"
begin

section \<open>Data model\<close>

text \<open>
  A JavaScript string is a sequence of UTF-16 code units. The model uses \<^typ>\<open>string\<close>,
  whose characters are the code units U+0000 to U+00FF; \<open>length\<close> is the source's
  \<^verbatim>\<open>.length\<close>, \<open>take n\<close> is \<^verbatim>\<open>.slice(0, n)\<close>.

  The interfaces of the source share their field names: \<^verbatim>\<open>FeedbackDraft extends
  ElementSnapshot\<close>, and \<^verbatim>\<open>FeedbackCreateInput\<close> lists the six snapshot fields
  together with \<^verbatim>\<open>context\<close>, \<^verbatim>\<open>componentName\<close> and \<^verbatim>\<open>feedbackText\<close>. The records
  below are extensions of each other so that every field keeps the name it has in the
  source. An optional, nullable field (\<^verbatim>\<open>componentName?: string | null\<close>) is an option.
\<close>

record ElementSnapshot =
  selector :: string
  elementLabel :: string
  tagName :: string
  textPreview :: string
  htmlPreview :: string
  pageUrl :: string

record FeedbackCreateInput = ElementSnapshot +
  "context" :: string
  componentName :: "string option"
  feedbackText :: string

record FeedbackDraft = FeedbackCreateInput +
  isContextPending :: bool

datatype FeedbackStatus = pending | in_progress | resolved | invalid

text \<open>The field \<^verbatim>\<open>id\<close> of the source is \<open>ident\<close> here (\<open>id\<close> is the identity of HOL).\<close>

record FeedbackRecord = FeedbackCreateInput +
  ident :: string
  status :: FeedbackStatus
  createdAt :: string
  updatedAt :: string

section \<open>The feedback store over local storage (feedback-service.ts)\<close>

text \<open>
  The store is the text kept under \<^verbatim>\<open>STORAGE_KEY\<close>. \<^verbatim>\<open>readFromStorage\<close> only looks at
  what \<^verbatim>\<open>getItem\<close> and \<^verbatim>\<open>JSON.parse\<close> make of that text, so the item is modelled by these
  outcomes: no item (\<^verbatim>\<open>getItem\<close> returns null), the empty text, a text that
  \<^verbatim>\<open>JSON.parse\<close> rejects by throwing, a text that parses to a value that is not an
  array, and a text that parses to an array of records.

  \<^verbatim>\<open>persist\<close> calls \<^verbatim>\<open>setItem\<close> with \<^verbatim>\<open>JSON.stringify(records)\<close> outside any
  \<^verbatim>\<open>try\<close>. \<^verbatim>\<open>setItem\<close> throws when the storage does not take the new text (the quota
  is exceeded, or storage is denied); \<open>accepts\<close> tells for which arrays the write goes
  through. An accepted text parses back to the same array. A rejected write is the
  error value, which the asynchronous operations hand on as a rejected promise.
  The environment is \<open>None\<close> where \<^verbatim>\<open>typeof window === "undefined"\<close>.
\<close>

datatype item = Null | Empty | Unparseable | Non_array | Array "FeedbackRecord list"

datatype storage = Storage (content: item) (accepts: "FeedbackRecord list \<Rightarrow> bool")

type_synonym window = "storage option"

datatype storage_error = QuotaExceededError

fun readFromStorage :: "window \<Rightarrow> FeedbackRecord list" where
  "readFromStorage None = []"
| "readFromStorage (Some (Storage Null a)) = []"
| "readFromStorage (Some (Storage Empty a)) = []"
| "readFromStorage (Some (Storage Unparseable a)) = []"
| "readFromStorage (Some (Storage Non_array a)) = []"
| "readFromStorage (Some (Storage (Array parsed) a)) = parsed"

fun persist :: "FeedbackRecord list \<Rightarrow> window \<Rightarrow> storage_error + window" where
  "persist records None = Inr None"
| "persist records (Some (Storage old a)) =
     (if a records then Inr (Some (Storage (Array records) a)) else Inl QuotaExceededError)"

text \<open>
  \<^verbatim>\<open>Array.prototype.sort(comparefn)\<close>. The comparator returns a number, which may be NaN
  (\<open>None\<close>); the language specification reads NaN as +0. For a consistent comparator
  the sort is stable and its result is determined: an element is placed before the
  first later element that the comparator does not put in front of it. When the
  comparator is not consistent, as with a NaN among differing values, the specification
  leaves the order to the implementation; the function below then still inserts one
  element after the other, which is one such order.
\<close>

fun sort_insert :: "('a \<Rightarrow> 'a \<Rightarrow> int option) \<Rightarrow> 'a \<Rightarrow> 'a list \<Rightarrow> 'a list" where
  "sort_insert comparefn x [] = [x]"
| "sort_insert comparefn x (y # ys) =
     (let v = (case comparefn x y of None \<Rightarrow> 0 | Some n \<Rightarrow> n)
      in if v \<le> 0 then x # y # ys else y # sort_insert comparefn x ys)"

definition array_sort :: "('a \<Rightarrow> 'a \<Rightarrow> int option) \<Rightarrow> 'a list \<Rightarrow> 'a list" where
  "array_sort comparefn xs = foldr (sort_insert comparefn) xs []"

text \<open>
  \<^verbatim>\<open>findIndex\<close> returns the first index whose element satisfies the predicate, and -1
  (here \<open>None\<close>) when there is none.
\<close>

fun findIndex :: "('a \<Rightarrow> bool) \<Rightarrow> 'a list \<Rightarrow> nat option" where
  "findIndex p [] = None"
| "findIndex p (x # xs) =
     (if p x then Some 0 else map_option Suc (findIndex p xs))"

text \<open>
  \<open>getTime\<close> stands for \<^verbatim>\<open>new Date(s).getTime()\<close>: the milliseconds of a timestamp, or
  NaN (\<open>None\<close>) for a string that \<^verbatim>\<open>Date\<close> cannot parse. A difference with a NaN
  operand is NaN. The timestamps that \<open>create\<close> and \<open>updateStatus\<close> write are results of
  \<^verbatim>\<open>toISOString\<close>, which \<^verbatim>\<open>Date\<close> parses, but \<open>readFromStorage\<close> takes any stored array
  as it is. The promise returned by \<^verbatim>\<open>withLatency\<close> resolves to its payload; the
  operations return that payload, and those that write return the new environment too.
\<close>

definition list :: "(string \<Rightarrow> int option) \<Rightarrow> window \<Rightarrow> FeedbackRecord list" where
  "list getTime w =
     (let records = readFromStorage w
      in array_sort
           (\<lambda>first second.
              case (getTime (createdAt second), getTime (createdAt first)) of
                (Some s, Some f) \<Rightarrow> Some (s - f)
              | _ \<Rightarrow> None)
           records)"

text \<open>
  \<open>newId\<close> is the value of \<^verbatim>\<open>createId()\<close> and \<open>timestamp\<close> that of
  \<^verbatim>\<open>new Date().toISOString()\<close>. The spread \<^verbatim>\<open>...input\<close> copies the nine fields of a
  \<^verbatim>\<open>FeedbackCreateInput\<close>; that type has no \<^verbatim>\<open>id\<close>, \<^verbatim>\<open>status\<close>, \<^verbatim>\<open>createdAt\<close> or
  \<^verbatim>\<open>updatedAt\<close>, so the spread, which comes last, replaces none of the four.
\<close>

definition create ::
  "string \<Rightarrow> string \<Rightarrow> FeedbackCreateInput \<Rightarrow> window
     \<Rightarrow> storage_error + FeedbackRecord \<times> window" where
  "create newId timestamp input w =
     (let record =
            \<lparr>selector = selector input, elementLabel = elementLabel input,
             tagName = tagName input, textPreview = textPreview input,
             htmlPreview = htmlPreview input, pageUrl = pageUrl input,
             context = context input, componentName = componentName input,
             feedbackText = feedbackText input,
             ident = newId, status = pending,
             createdAt = timestamp, updatedAt = timestamp\<rparr>;
          records = readFromStorage w
      in case persist (record # records) w of
           Inl e \<Rightarrow> Inl e
         | Inr w' \<Rightarrow> Inr (record, w'))"

definition updateStatus ::
  "string \<Rightarrow> string \<Rightarrow> FeedbackStatus \<Rightarrow> window
     \<Rightarrow> storage_error + FeedbackRecord option \<times> window" where
  "updateStatus now i st w =
     (let records = readFromStorage w
      in case findIndex (\<lambda>record. ident record = i) records of
           None \<Rightarrow> Inr (None, w)
         | Some index \<Rightarrow>
             (let updated = (records ! index)\<lparr>status := st, updatedAt := now\<rparr>
              in case persist (records[index := updated]) w of
                   Inl e \<Rightarrow> Inl e
                 | Inr w' \<Rightarrow> Inr (Some updated, w')))"

section \<open>The update-status branch of the Remix action (routes/feedback.tsx)\<close>

text \<open>
  In the Remix route the store is a table behind Prisma, and a status update is the
  branch of \<^verbatim>\<open>action\<close> for the intent \<^verbatim>\<open>update-status\<close>. \<open>formId\<close> is
  \<^verbatim>\<open>formData.get("id")?.toString()\<close> and \<open>formStatus\<close> is
  \<^verbatim>\<open>formData.get("status")?.toString().toUpperCase()\<close>, each \<open>None\<close> when undefined.
  \<^verbatim>\<open>db.feedback.update\<close> is not code of the repository: \<open>dbUpdate\<close> stands for the outcome
  of awaiting it, a rejection (\<open>Inl\<close>) or a value, and the branch hands a rejection on.
  The messages of the source are Chinese texts; the constructors name what they say.
  Every \<open>ActionError\<close> is sent with HTTP status 400.
\<close>

datatype action_type = TypeCreate | TypeUpdate

datatype action_message = MissingField string | InvalidStatusParameter | UnknownOperation

datatype 'f ActionResult = ActionOk action_type 'f | ActionError action_message

definition STATUS_ORDER :: "string list" where
  "STATUS_ORDER = [''PENDING'', ''IN_PROGRESS'', ''RESOLVED'', ''INVALID'']"

definition action_update_status ::
  "(string \<Rightarrow> string \<Rightarrow> 'e + 'f) \<Rightarrow> string option \<Rightarrow> string option \<Rightarrow> 'e + 'f ActionResult" where
  "action_update_status dbUpdate formId formStatus =
     (case formId of
        None \<Rightarrow> Inr (ActionError InvalidStatusParameter)
      | Some i \<Rightarrow>
          (case formStatus of
             None \<Rightarrow> Inr (ActionError InvalidStatusParameter)
           | Some s \<Rightarrow>
               if i = [] \<or> s = [] \<or> s \<notin> set STATUS_ORDER
               then Inr (ActionError InvalidStatusParameter)
               else (case dbUpdate i s of
                       Inl e \<Rightarrow> Inl e
                     | Inr feedback \<Rightarrow> Inr (ActionOk TypeUpdate feedback))))"

section \<open>Strings\<close>

text \<open>
  The character classes of the regular expressions in the source, read without the
  \<^verbatim>\<open>u\<close> and \<^verbatim>\<open>i\<close> flags: \<^verbatim>\<open>\s\<close> (also the set that \<^verbatim>\<open>trim\<close> removes) is, among the code
  units modelled, TAB, LF, VT, FF, CR, SPACE and NO-BREAK SPACE; \<^verbatim>\<open>\w\<close> is
  \<^verbatim>\<open>[A-Za-z0-9_]\<close>.
\<close>

definition isWhiteSpace :: "char \<Rightarrow> bool" where
  "isWhiteSpace c \<longleftrightarrow> (of_char c :: nat) \<in> {9, 10, 11, 12, 13, 32, 160}"

definition isUpper :: "char \<Rightarrow> bool" where
  "isUpper c \<longleftrightarrow> 65 \<le> (of_char c :: nat) \<and> (of_char c :: nat) \<le> 90"

definition isWordChar :: "char \<Rightarrow> bool" where
  "isWordChar c \<longleftrightarrow>
     (let n = (of_char c :: nat)
      in (65 \<le> n \<and> n \<le> 90) \<or> (97 \<le> n \<and> n \<le> 122) \<or> (48 \<le> n \<and> n \<le> 57) \<or> n = 95)"

text \<open>
  \<^verbatim>\<open>toLowerCase\<close> on the code units modelled: A to Z, and the capital letters U+00C0 to
  U+00DE except the multiplication sign U+00D7, move up by 32; the rest is unchanged.
\<close>

definition toLowerCase_unit :: "char \<Rightarrow> char" where
  "toLowerCase_unit c =
     (let n = (of_char c :: nat)
      in if (65 \<le> n \<and> n \<le> 90) \<or> (192 \<le> n \<and> n \<le> 222 \<and> n \<noteq> 215)
         then char_of (n + 32) else c)"

definition toLowerCase :: "string \<Rightarrow> string" where
  "toLowerCase s = map toLowerCase_unit s"

definition trim :: "string \<Rightarrow> string" where
  "trim s = rev (dropWhile isWhiteSpace (rev (dropWhile isWhiteSpace s)))"

text \<open>\<^verbatim>\<open>.replace(/\s+/g, " ")\<close>: every maximal run of white space becomes one space.\<close>

function replaceWhiteSpaceRuns :: "string \<Rightarrow> string" where
  "replaceWhiteSpaceRuns [] = []"
| "replaceWhiteSpaceRuns (c # cs) =
     (if isWhiteSpace c then CHR '' '' # replaceWhiteSpaceRuns (dropWhile isWhiteSpace cs)
      else c # replaceWhiteSpaceRuns cs)"
  by pat_completeness auto
termination
  by (relation "measure length") (auto simp: length_dropWhile_le less_Suc_eq_le)

text \<open>\<^verbatim>\<open>Array.prototype.join(separator)\<close>.\<close>

fun join :: "string \<Rightarrow> string list \<Rightarrow> string" where
  "join separator [] = []"
| "join separator [x] = x"
| "join separator (x # y # ys) = x @ separator @ join separator (y # ys)"

section \<open>DOM elements\<close>

text \<open>
  An element carries what the source reads from it: \<^verbatim>\<open>tagName\<close> (guarded by \<^verbatim>\<open>?.\<close> in the
  source, so it may be undefined), whether it is an \<^verbatim>\<open>HTMLElement\<close>, \<^verbatim>\<open>id\<close>, the tokens of
  \<^verbatim>\<open>classList\<close>, \<^verbatim>\<open>outerHTML\<close>, \<^verbatim>\<open>textContent\<close> (nullable) and \<^verbatim>\<open>parentElement\<close>.
\<close>

datatype element = Element
  (el_tagName: "string option")
  (isHTMLElement: bool)
  (el_id: string)
  (classList: "string list")
  (outerHTML: string)
  (textContent: "string option")
  (parentElement: "element option")

section \<open>Selector builder\<close>

text \<open>
  \<^verbatim>\<open>buildSelector\<close> of the agent playground: the loop runs while there is a current
  element and fewer than five parts; \<open>parts @ [x]\<close> is \<^verbatim>\<open>parts.push(x)\<close>, and the branch
  for a non-empty id returns the parts as the \<^verbatim>\<open>break\<close> leaves them.
\<close>

function buildSelector_loop :: "element option \<Rightarrow> string list \<Rightarrow> string list" where
  "buildSelector_loop None parts = parts"
| "buildSelector_loop (Some current) parts =
     (if length parts < 5 then
        (let tag = (case el_tagName current of Some t \<Rightarrow> toLowerCase t | None \<Rightarrow> '''')
         in if isHTMLElement current then
              (if el_id current \<noteq> [] then parts @ [tag @ ''#'' @ el_id current]
               else
                 (let classes = map (\<lambda>className. ''.'' @ className)
                                  (take 2 (filter (\<lambda>c. c \<noteq> []) (classList current)));
                      suffix = (if length classes > 0 then concat classes else '''')
                  in buildSelector_loop (parentElement current) (parts @ [tag @ suffix])))
            else buildSelector_loop (parentElement current) (parts @ [tag]))
      else parts)"
  by pat_completeness auto
termination
  by (relation "measure (\<lambda>(current, parts). 5 - length parts)") auto

declare buildSelector_loop.simps [simp del]

definition buildSelector :: "element \<Rightarrow> string" where
  "buildSelector element = join '' > '' (rev (buildSelector_loop (Some element) []))"









section \<open>Element snapshot\<close>

text \<open>
  \<^verbatim>\<open>createElementSnapshot\<close>; \<open>href\<close> is \<^verbatim>\<open>window.location.href\<close> and \<open>build\<close> the selector
  builder of the variant (\<open>buildSelector\<close> or \<open>buildSelector_remix\<close>). The separator of the
  label is a space, the middle dot U+00B7 and a space. The playground joins the label
  pieces and the Remix route writes the two cases out; both give the same label.
\<close>

definition createElementSnapshot ::
  "(element \<Rightarrow> string) \<Rightarrow> string \<Rightarrow> element \<Rightarrow> ElementSnapshot" where
  "createElementSnapshot build href element =
     (let tagName' = (case el_tagName element of Some t \<Rightarrow> toLowerCase t | None \<Rightarrow> ''unknown'');
          selector' = build element;
          htmlPreview' =
            (if isHTMLElement element \<and> outerHTML element \<noteq> [] then
               (if length (outerHTML element) > 400
                then take 400 (outerHTML element) @ ''...''
                else outerHTML element)
             else ''<'' @ tagName' @ '' />'');
          textContent' =
            (case textContent element of
               Some t \<Rightarrow> replaceWhiteSpaceRuns (trim t)
             | None \<Rightarrow> '''');
          textPreview' =
            (if length textContent' > 120 then take 120 textContent' @ ''...''
             else textContent');
          labelPieces =
            [''<'' @ tagName' @ ''>''] @ (if textPreview' \<noteq> [] then [textPreview'] else [])
      in \<lparr>selector = selector',
          elementLabel = join [CHR '' '', CHR 0xB7, CHR '' ''] labelPieces,
          tagName = tagName',
          textPreview = textPreview',
          htmlPreview = htmlPreview',
          pageUrl = href\<rparr>)"

section \<open>Component-name extractor\<close>

text \<open>
  The pattern \<^verbatim>\<open>/\bin\s+([A-Z][\w.]*)/\<close>. \<open>wordBoundary\<close> is \<^verbatim>\<open>\b\<close> between the character
  before a position and the one at it (\<open>None\<close> at either end of the input).
  \<open>matchAt prev s\<close> is the attempt to match at the position where \<open>s\<close> starts, and
  yields the capture group. The quantifiers are greedy; giving back white space would
  put a white-space character where \<^verbatim>\<open>[A-Z]\<close> is required, so the greedy attempt
  finds the match whenever there is one at that position. \<open>regexSearch\<close> tries the
  positions from left to right, as \<^verbatim>\<open>String.prototype.match\<close> does without the
  \<^verbatim>\<open>g\<close> flag.
\<close>

definition wordBoundary :: "char option \<Rightarrow> char option \<Rightarrow> bool" where
  "wordBoundary prev at \<longleftrightarrow>
     (case prev of None \<Rightarrow> False | Some c \<Rightarrow> isWordChar c)
       \<noteq> (case at of None \<Rightarrow> False | Some c \<Rightarrow> isWordChar c)"

definition isIdentChar :: "char \<Rightarrow> bool" where
  "isIdentChar c \<longleftrightarrow> isWordChar c \<or> c = CHR ''.''"

definition matchAt :: "char option \<Rightarrow> string \<Rightarrow> string option" where
  "matchAt prev s =
     (if wordBoundary prev (case s of [] \<Rightarrow> None | c # _ \<Rightarrow> Some c) \<and> take 2 s = ''in'' then
        (let afterIn = drop 2 s;
             afterSpace = dropWhile isWhiteSpace afterIn
         in if length afterSpace < length afterIn then
              (case afterSpace of
                 [] \<Rightarrow> None
               | u # others \<Rightarrow> if isUpper u then Some (u # takeWhile isIdentChar others) else None)
            else None)
      else None)"

fun regexSearch :: "char option \<Rightarrow> string \<Rightarrow> string option" where
  "regexSearch prev [] = matchAt prev []"
| "regexSearch prev (c # cs) =
     (case matchAt prev (c # cs) of
        Some candidate \<Rightarrow> Some candidate
      | None \<Rightarrow> regexSearch (Some c) cs)"

definition extractComponentName :: "string \<Rightarrow> string option" where
  "extractComponentName contextText =
     (case regexSearch None contextText of
        None \<Rightarrow> None
      | Some candidate \<Rightarrow>
          if candidate = [] \<or> candidate = ''<anonymous>'' \<or> toLowerCase candidate = ''server''
          then None
          else Some candidate)"

section \<open>Draft and context-resolution controller\<close>

text \<open>
  The state of the component: the counter \<^verbatim>\<open>contextTokenRef.current\<close>, the draft
  (\<^verbatim>\<open>useState<FeedbackDraft | null>(null)\<close>), and the calls of \<^verbatim>\<open>formatElementInfo\<close> that are
  issued and not settled, each with the token and the snapshot its callbacks captured.
  The updaters passed to \<^verbatim>\<open>setDraft\<close> run in the order they are queued, so each handler
  applies its updater to the draft at once.
\<close>

record controller =
  contextToken :: nat
  draft :: "FeedbackDraft option"
  inFlight :: "(nat \<times> ElementSnapshot) list"

definition initial :: controller where
  "initial = \<lparr>contextToken = 0, draft = None, inFlight = []\<rparr>"

text \<open>The updater of the selection handler.\<close>

definition installDraft :: "ElementSnapshot \<Rightarrow> FeedbackDraft option \<Rightarrow> FeedbackDraft" where
  "installDraft snapshot previous =
     (let preserved =
            (case previous of
               Some p \<Rightarrow> if selector p = selector snapshot then feedbackText p else ''''
             | None \<Rightarrow> '''')
      in \<lparr>selector = selector snapshot, elementLabel = elementLabel snapshot,
          tagName = tagName snapshot, textPreview = textPreview snapshot,
          htmlPreview = htmlPreview snapshot, pageUrl = pageUrl snapshot,
          context = htmlPreview snapshot,
          componentName = (case previous of Some p \<Rightarrow> componentName p | None \<Rightarrow> None),
          feedbackText = preserved,
          isContextPending = True\<rparr>)"

text \<open>The updater of the \<^verbatim>\<open>then\<close> callback and the updater of the \<^verbatim>\<open>catch\<close> callback.\<close>

definition mergeContext ::
  "ElementSnapshot \<Rightarrow> string \<Rightarrow> string option \<Rightarrow> FeedbackDraft option \<Rightarrow> FeedbackDraft option" where
  "mergeContext snapshot contextText name previous =
     (case previous of
        None \<Rightarrow> previous
      | Some p \<Rightarrow>
          if selector p \<noteq> selector snapshot then previous
          else Some (p\<lparr>context := contextText, componentName := name,
                       isContextPending := False\<rparr>))"

definition clearPending :: "ElementSnapshot \<Rightarrow> FeedbackDraft option \<Rightarrow> FeedbackDraft option" where
  "clearPending snapshot previous =
     (case previous of
        None \<Rightarrow> previous
      | Some p \<Rightarrow>
          if selector p \<noteq> selector snapshot then previous
          else Some (p\<lparr>isContextPending := False\<rparr>))"

text \<open>
  \<^verbatim>\<open>onElementSelect\<close> (\<^verbatim>\<open>handleElementSelect\<close> in the Remix route, with the same text);
  \<open>snapshotOf\<close> is \<^verbatim>\<open>createElementSnapshot\<close> of the variant.
\<close>

definition onElementSelect :: "(element \<Rightarrow> ElementSnapshot) \<Rightarrow> element \<Rightarrow> controller \<Rightarrow> controller" where
  "onElementSelect snapshotOf element st =
     (let snapshot = snapshotOf element;
          currentToken = contextToken st + 1
      in \<lparr>contextToken = currentToken,
          draft = Some (installDraft snapshot (draft st)),
          inFlight = inFlight st @ [(currentToken, snapshot)]\<rparr>)"

definition onFulfilled :: "nat \<Rightarrow> ElementSnapshot \<Rightarrow> string \<Rightarrow> controller \<Rightarrow> controller" where
  "onFulfilled currentToken snapshot contextText st =
     (if contextToken st \<noteq> currentToken then st
      else (let name = extractComponentName contextText
            in st\<lparr>draft := mergeContext snapshot contextText name (draft st)\<rparr>))"

definition onRejected :: "nat \<Rightarrow> ElementSnapshot \<Rightarrow> controller \<Rightarrow> controller" where
  "onRejected currentToken snapshot st =
     (if contextToken st \<noteq> currentToken then st
      else st\<lparr>draft := clearPending snapshot (draft st)\<rparr>)"

text \<open>
  The events of a run: the picker selects an element, or the call issued with a token
  settles, fulfilled with a text or rejected. A promise settles once, and only a call
  that was issued can settle: a settlement for a token that is not in flight changes
  nothing.
\<close>

datatype settlement = Fulfilled string | Rejected

datatype event = Select element | Settle nat settlement

fun step :: "(element \<Rightarrow> ElementSnapshot) \<Rightarrow> controller \<Rightarrow> event \<Rightarrow> controller" where
  "step snapshotOf st (Select element) = onElementSelect snapshotOf element st"
| "step snapshotOf st (Settle token result) =
     (case map_of (inFlight st) token of
        None \<Rightarrow> st
      | Some snapshot \<Rightarrow>
          (let st' = st\<lparr>inFlight := filter (\<lambda>call. fst call \<noteq> token) (inFlight st)\<rparr>
           in case result of
                Fulfilled contextText \<Rightarrow> onFulfilled token snapshot contextText st'
              | Rejected \<Rightarrow> onRejected token snapshot st'))"

definition run :: "(element \<Rightarrow> ElementSnapshot) \<Rightarrow> event list \<Rightarrow> controller \<Rightarrow> controller" where
  "run snapshotOf events st = foldl (step snapshotOf) st events"

text \<open>Predicates on events, used to state the properties of runs.\<close>

fun isSelect :: "event \<Rightarrow> bool" where
  "isSelect (Select element) = True"
| "isSelect (Settle token result) = False"

fun settles :: "nat \<Rightarrow> event \<Rightarrow> bool" where
  "settles n (Select element) = False"
| "settles n (Settle token result) = (token = n)"

section \<open>Sample values\<close>

text \<open>
  A create input, two stored records, a record whose \<open>createdAt\<close> is not a date, a
  reading of the timestamps used, a storage that takes every write and one that is full.
\<close>

definition sample_input :: FeedbackCreateInput where
  "sample_input =
     \<lparr>selector = ''main > button#save'', elementLabel = ''<button>'', tagName = ''button'',
      textPreview = '''', htmlPreview = ''<button id=save></button>'',
      pageUrl = ''http://localhost:5173/'', context = ''<button id=save></button>'',
      componentName = None, feedbackText = ''too small''\<rparr>"

definition sample_record :: FeedbackRecord where
  "sample_record =
     \<lparr>selector = ''main > button#save'', elementLabel = ''<button>'', tagName = ''button'',
      textPreview = '''', htmlPreview = ''<button id=save></button>'',
      pageUrl = ''http://localhost:5173/'', context = ''<button id=save></button>'',
      componentName = None, feedbackText = ''too small'',
      ident = ''fbk_1'', status = pending,
      createdAt = ''2024-05-01T10:00:00.000Z'', updatedAt = ''2024-05-01T10:00:00.000Z''\<rparr>"

definition newer_record :: FeedbackRecord where
  "newer_record =
     sample_record\<lparr>ident := ''fbk_2'', createdAt := ''2024-05-02T08:30:00.000Z'',
                    updatedAt := ''2024-05-02T08:30:00.000Z''\<rparr>"

definition undated_record :: FeedbackRecord where
  "undated_record =
     sample_record\<lparr>ident := ''fbk_3'', createdAt := ''yesterday'', updatedAt := ''yesterday''\<rparr>"

definition sample_getTime :: "string \<Rightarrow> int option" where
  "sample_getTime s =
     (if s = ''2024-05-01T10:00:00.000Z'' then Some 1714557600000
      else if s = ''2024-05-02T08:30:00.000Z'' then Some 1714638600000
      else None)"

definition roomy :: "item \<Rightarrow> window" where
  "roomy c = Some (Storage c (\<lambda>records. True))"

definition full :: "item \<Rightarrow> window" where
  "full c = Some (Storage c (\<lambda>records. False))"

text \<open>A small page: body, main, a button with an id, a card, and an SVG logo with an id.\<close>

definition body_el :: element where
  "body_el = Element (Some ''BODY'') True '''' [] ''<body><main class=layout></main></body>''
     (Some ''  Save   changes '') None"

definition main_el :: element where
  "main_el = Element (Some ''MAIN'') True '''' [''layout'', ''wide'', ''dark'']
     ''<main class=layout></main>'' (Some ''  Save   changes '') (Some body_el)"

definition save_button :: element where
  "save_button = Element (Some ''BUTTON'') True ''save'' [''btn'']
     ''<button id=save>Save</button>'' (Some ''Save'') (Some main_el)"

definition card_div :: element where
  "card_div = Element (Some ''DIV'') True '''' [''card'', ''wide'', ''dark'']
     ''<div class=card>Save   changes</div>''
     (Some (''  Save '' @ [CHR 0x0A, CHR 0x09] @ ''changes '')) (Some main_el)"

definition logo_svg :: element where
  "logo_svg = Element (Some ''svg'') False ''logo'' [''icon'']
     ''<svg id=logo></svg>'' (Some '''') (Some card_div)"


definition long_paragraph :: element where
  "long_paragraph = Element (Some ''P'') True '''' []
     (''<p>'' @ replicate 394 CHR ''a'' @ ''</p>'') (Some (replicate 394 CHR ''a''))
     (Some body_el)"

definition sample_snapshotOf :: "element \<Rightarrow> ElementSnapshot" where
  "sample_snapshotOf = createElementSnapshot buildSelector ''http://localhost:5173/''"

section \<open>Properties of the store\<close>

lemma findIndex_None_iff: "findIndex p xs = None \<longleftrightarrow> (\<forall>x \<in> set xs. \<not> p x)"
  by (induction xs) auto

lemma set_sort_insert: "set (sort_insert comparefn x xs) = insert x (set xs)"
  by (induction xs) (auto simp: Let_def)

lemma mset_sort_insert: "mset (sort_insert comparefn x xs) = add_mset x (mset xs)"
  by (induction xs) (auto simp: Let_def)

lemma mset_array_sort: "mset (array_sort comparefn xs) = mset xs"
  by (induction xs) (simp_all add: array_sort_def mset_sort_insert)

lemma set_array_sort: "set (array_sort comparefn xs) = set xs"
  by (metis mset_array_sort set_mset_mset)

text \<open>Where every key is a number, the comparator by descending key sorts.\<close>

lemma sorted_sort_insert:
  fixes key :: "'a \<Rightarrow> int option"
  assumes "\<forall>a \<in> insert x (set xs). key a \<noteq> None"
    and "sorted_wrt (\<lambda>a b. the (key b) \<le> the (key a)) xs"
  shows "sorted_wrt (\<lambda>a b. the (key b) \<le> the (key a))
           (sort_insert
              (\<lambda>first second.
                 case (key second, key first) of
                   (Some s, Some f) \<Rightarrow> Some (s - f)
                 | _ \<Rightarrow> None)
              x xs)"
  using assms
proof (induction xs)
  case Nil
  show ?case by simp
next
  case (Cons y ys)
  obtain kx ky where k: "key x = Some kx" "key y = Some ky"
    using Cons.prems(1) by auto
  show ?case
  proof (cases "ky - kx \<le> 0")
    case True
    with k Cons.prems(2) show ?thesis
      by (auto simp: Let_def)
  next
    case False
    have "sorted_wrt (\<lambda>a b. the (key b) \<le> the (key a))
            (sort_insert
               (\<lambda>first second.
                  case (key second, key first) of
                    (Some s, Some f) \<Rightarrow> Some (s - f)
                  | _ \<Rightarrow> None)
               x ys)"
      using Cons.prems by (intro Cons.IH) simp_all
    with False k Cons.prems(2) show ?thesis
      by (auto simp: Let_def set_sort_insert)
  qed
qed

lemma sorted_array_sort:
  fixes key :: "'a \<Rightarrow> int option"
  assumes "\<forall>a \<in> set xs. key a \<noteq> None"
  shows "sorted_wrt (\<lambda>a b. the (key b) \<le> the (key a))
           (array_sort
              (\<lambda>first second.
                 case (key second, key first) of
                   (Some s, Some f) \<Rightarrow> Some (s - f)
                 | _ \<Rightarrow> None)
              xs)"
  using assms
proof (induction xs)
  case Nil
  show ?case by (simp add: array_sort_def)
next
  case (Cons x xs)
  have "sorted_wrt (\<lambda>a b. the (key b) \<le> the (key a))
          (sort_insert
             (\<lambda>first second.
                case (key second, key first) of
                  (Some s, Some f) \<Rightarrow> Some (s - f)
                | _ \<Rightarrow> None)
             x
             (array_sort
                (\<lambda>first second.
                   case (key second, key first) of
                     (Some s, Some f) \<Rightarrow> Some (s - f)
                   | _ \<Rightarrow> None)
                xs))"
    using Cons by (intro sorted_sort_insert) (simp_all add: set_array_sort)
  then show ?case
    by (simp add: array_sort_def)
qed

lemma mset_list: "mset (list getTime w) = mset (readFromStorage w)"
  by (simp add: list_def mset_array_sort)

lemma set_list: "set (list getTime w) = set (readFromStorage w)"
  by (metis mset_list set_mset_mset)

lemma list_sorted:
  assumes "\<forall>r \<in> set (readFromStorage w). getTime (createdAt r) \<noteq> None"
  shows "sorted_wrt
           (\<lambda>a b. \<exists>ta tb. getTime (createdAt a) = Some ta \<and> getTime (createdAt b) = Some tb \<and>
                     tb \<le> ta)
           (list getTime w)"
proof -
  have "sorted_wrt (\<lambda>a b. the (getTime (createdAt b)) \<le> the (getTime (createdAt a)))
          (list getTime w)"
    unfolding list_def Let_def
    using assms by (intro sorted_array_sort [where key = "\<lambda>r. getTime (createdAt r)"])
  then show ?thesis
  proof (rule sorted_wrt_mono_rel [rotated])
    fix a b
    assume "a \<in> set (list getTime w)" and "b \<in> set (list getTime w)"
      and le: "the (getTime (createdAt b)) \<le> the (getTime (createdAt a))"
    then obtain ta tb where "getTime (createdAt a) = Some ta" "getTime (createdAt b) = Some tb"
      using assms by (simp add: set_list) blast
    with le show "\<exists>ta tb. getTime (createdAt a) = Some ta \<and> getTime (createdAt b) = Some tb \<and>
                    tb \<le> ta"
      by simp
  qed
qed

lemma list_empty: "readFromStorage w = [] \<Longrightarrow> list getTime w = []"
  by (simp add: list_def array_sort_def)

lemma list_single: "readFromStorage w = [r] \<Longrightarrow> list getTime w = [r]"
  by (simp add: list_def array_sort_def)

lemma readFromStorage_unreadable:
  "c = Null \<or> c = Empty \<or> c = Unparseable \<or> c = Non_array \<Longrightarrow>
   readFromStorage (Some (Storage c a)) = []"
  by auto

lemma sample_create:
  "create ''fbk_1'' ''2024-05-01T10:00:00.000Z'' sample_input (roomy c)
     = Inr (sample_record, roomy (Array (sample_record # readFromStorage (roomy c))))"
  by (simp add: create_def Let_def roomy_def sample_record_def sample_input_def)

lemma sample_idents:
  "ident sample_record = ''fbk_1''" "ident newer_record = ''fbk_2''"
  by (simp_all add: sample_record_def newer_record_def)

text \<open>
  The claim C3 as stated also covers the status update of the Remix route, and fails
  there: the branch has no not-found result of its own. For an id that the table does
  not hold, the update either rejects, and the action throws, or hands back a value,
  and the action answers \<^verbatim>\<open>ok: true\<close>.
\<close>

theorem action_update_status_counterexample:
  "action_update_status (\<lambda>i s. Inl ''record to update not found'')
      (Some ''missing'') (Some ''RESOLVED'')
     = (Inl ''record to update not found'' :: string + unit option ActionResult) \<and>
   action_update_status (\<lambda>i s. Inr None) (Some ''missing'') (Some ''RESOLVED'')
     = (Inr (ActionOk TypeUpdate None) :: string + unit option ActionResult)"
  by (simp add: action_update_status_def STATUS_ORDER_def)

text \<open>Whatever the update does, a well-formed request is never answered by an error value.\<close>

lemma action_update_status_outcomes:
  assumes "i \<noteq> []" and "s \<in> set STATUS_ORDER"
  shows "(\<exists>e. action_update_status dbUpdate (Some i) (Some s) = Inl e) \<or>
         (\<exists>feedback. action_update_status dbUpdate (Some i) (Some s)
                        = Inr (ActionOk TypeUpdate feedback))"
proof -
  have "s \<noteq> []"
    using assms(2) by (auto simp: STATUS_ORDER_def)
  with assms show ?thesis
    by (cases "dbUpdate i s") (simp_all add: action_update_status_def)
qed

text \<open>
  C3, as amended: the claim for the local-storage service. When no stored record has
  the given id, \<open>updateStatus\<close> returns the not-found value (null, here \<open>None\<close>) as an
  ordinary result, not an error, and the environment it leaves is the one it found:
  nothing is persisted.
\<close>

theorem updateStatus_not_found:
  assumes "\<forall>record \<in> set (readFromStorage w). ident record \<noteq> i"
  shows "updateStatus now i st w = Inr (None, w)"
proof -
  have "findIndex (\<lambda>record. ident record = i) (readFromStorage w) = None"
    using assms by (simp add: findIndex_None_iff)
  then show ?thesis
    by (simp add: updateStatus_def)
qed

theorem updateStatus_not_found_witness:
  "readFromStorage (roomy (Array [sample_record])) = [sample_record] \<and>
   ident sample_record \<noteq> ''fbk_2'' \<and>
   updateStatus ''2024-05-02T08:30:00.000Z'' ''fbk_2'' resolved (roomy (Array [sample_record]))
     = Inr (None, roomy (Array [sample_record]))"
proof -
  have r: "readFromStorage (roomy (Array [sample_record])) = [sample_record]"
    by (simp add: roomy_def)
  have i: "ident sample_record \<noteq> ''fbk_2''"
    by (simp add: sample_idents)
  then have h: "\<forall>record \<in> set (readFromStorage (roomy (Array [sample_record]))).
                  ident record \<noteq> ''fbk_2''"
    by (simp add: r)
  from updateStatus_not_found [OF h] r i show ?thesis
    by blast
qed

text \<open>
  C4. The record that \<open>create\<close> returns has status \<open>pending\<close> and equal \<open>createdAt\<close> and
  \<open>updatedAt\<close>; where a window exists, the store written is the returned record followed
  by the records read, so the record persisted is the record returned.
\<close>

theorem create_pending_persisted:
  assumes "create newId timestamp input w = Inr (record, w')"
  shows "status record = pending \<and> createdAt record = updatedAt record \<and>
         (\<forall>s. w = Some s \<longrightarrow>
            w' = Some (Storage (Array (record # readFromStorage w)) (accepts s)) \<and>
            readFromStorage w' = record # readFromStorage w)"
proof (cases w)
  case None
  with assms show ?thesis
    by (auto simp: create_def Let_def)
next
  case (Some s)
  obtain c a where s: "s = Storage c a"
    by (cases s)
  from assms Some s show ?thesis
    by (auto simp: create_def Let_def split: if_splits)
qed

text \<open>\<open>create\<close> returns its record whenever there is no window or the write is accepted.\<close>

lemma create_returns:
  assumes "w = None \<or> (\<exists>s. w = Some s \<and> (\<forall>records. accepts s records))"
  shows "\<exists>record w'. create newId timestamp input w = Inr (record, w')"
proof (cases w)
  case None
  then show ?thesis
    by (simp add: create_def Let_def)
next
  case (Some s)
  obtain c a where s: "s = Storage c a"
    by (cases s)
  from assms Some s show ?thesis
    by (simp add: create_def Let_def)
qed

theorem create_pending_persisted_witness:
  "create ''fbk_1'' ''2024-05-01T10:00:00.000Z'' sample_input (roomy Null)
     = Inr (sample_record, roomy (Array [sample_record])) \<and>
   status sample_record = pending \<and> createdAt sample_record = updatedAt sample_record \<and>
   readFromStorage (roomy (Array [sample_record])) = [sample_record]"
proof -
  have h: "create ''fbk_1'' ''2024-05-01T10:00:00.000Z'' sample_input (roomy Null)
             = Inr (sample_record, roomy (Array [sample_record]))"
    using sample_create [of Null] by (simp add: roomy_def)
  have n: "readFromStorage (roomy Null) = []"
    by (simp add: roomy_def)
  from create_pending_persisted [OF h]
  have "status sample_record = pending \<and> createdAt sample_record = updatedAt sample_record \<and>
        readFromStorage (roomy (Array [sample_record]))
          = sample_record # readFromStorage (roomy Null)"
    unfolding roomy_def by blast
  with h n show ?thesis
    by simp
qed

text \<open>
  The claim C6 as stated fails in its second half: a stored array is read without any
  check of its timestamps, and with a \<open>createdAt\<close> that is not a date the comparator
  returns NaN. The store below lists an older record before a newer one.
\<close>

theorem list_order_counterexample:
  "list sample_getTime (roomy (Array [sample_record, undated_record, newer_record]))
     = [sample_record, undated_record, newer_record] \<and>
   sample_getTime (createdAt sample_record) = Some 1714557600000 \<and>
   sample_getTime (createdAt undated_record) = None \<and>
   sample_getTime (createdAt newer_record) = Some 1714638600000"
  by (simp add: list_def array_sort_def roomy_def sample_getTime_def
                sample_record_def undated_record_def newer_record_def)

text \<open>
  C6, as amended. In a browser, after one \<open>create\<close> that returns, with an id that no
  stored record has, \<open>list\<close> returns the records read before together with the created
  record, which occurs exactly once and consists of the input's fields, the generated
  id, the timestamp as \<open>createdAt\<close> and \<open>updatedAt\<close>, and status \<open>pending\<close>; on an empty
  store the result is that record alone. For every store in which each \<open>createdAt\<close>
  reads as a date, the result of \<open>list\<close> is ordered by the time of \<open>createdAt\<close>,
  descending.
\<close>

theorem create_then_list:
  assumes "w = Some s"
    and "\<forall>r \<in> set (readFromStorage w). ident r \<noteq> newId"
    and "create newId timestamp input w = Inr (record, w')"
  shows "record =
           \<lparr>selector = selector input, elementLabel = elementLabel input,
            tagName = tagName input, textPreview = textPreview input,
            htmlPreview = htmlPreview input, pageUrl = pageUrl input,
            context = context input, componentName = componentName input,
            feedbackText = feedbackText input,
            ident = newId, status = pending,
            createdAt = timestamp, updatedAt = timestamp\<rparr> \<and>
         mset (list getTime w') = add_mset record (mset (readFromStorage w)) \<and>
         count (mset (list getTime w')) record = 1 \<and>
         (readFromStorage w = [] \<longrightarrow> list getTime w' = [record]) \<and>
         ((\<forall>r \<in> set (readFromStorage w0). getTime (createdAt r) \<noteq> None) \<longrightarrow>
            sorted_wrt
              (\<lambda>a b. \<exists>ta tb. getTime (createdAt a) = Some ta \<and> getTime (createdAt b) = Some tb \<and>
                        tb \<le> ta)
              (list getTime w0))"
proof -
  obtain c a where s: "s = Storage c a"
    by (cases s)
  have rec: "record =
           \<lparr>selector = selector input, elementLabel = elementLabel input,
            tagName = tagName input, textPreview = textPreview input,
            htmlPreview = htmlPreview input, pageUrl = pageUrl input,
            context = context input, componentName = componentName input,
            feedbackText = feedbackText input,
            ident = newId, status = pending,
            createdAt = timestamp, updatedAt = timestamp\<rparr>"
    using assms(1,3) s by (auto simp: create_def Let_def split: if_splits)
  have w': "readFromStorage w' = record # readFromStorage w"
    using assms(1,3) s by (auto simp: create_def Let_def split: if_splits)
  have idr: "ident record = newId"
    by (simp add: rec)
  have "record \<notin> set (readFromStorage w)"
    using assms(2) idr by blast
  then have cnt: "count (mset (readFromStorage w)) record = 0"
    by (simp add: count_eq_zero_iff)
  have m: "mset (list getTime w') = add_mset record (mset (readFromStorage w))"
    by (simp add: mset_list w')
  have c1: "count (mset (list getTime w')) record = 1"
    by (simp add: m cnt)
  have single: "readFromStorage w = [] \<longrightarrow> list getTime w' = [record]"
    by (simp add: list_single w')
  show ?thesis
    using rec m c1 single list_sorted [of w0 getTime]
    by blast
qed

theorem create_then_list_witness:
  "create ''fbk_2'' ''2024-05-02T08:30:00.000Z'' sample_input (roomy (Array [sample_record]))
     = Inr (newer_record, roomy (Array [newer_record, sample_record])) \<and>
   readFromStorage (roomy (Array [sample_record])) = [sample_record] \<and>
   ident sample_record \<noteq> ''fbk_2'' \<and>
   mset (list sample_getTime (roomy (Array [newer_record, sample_record])))
     = {#newer_record, sample_record#} \<and>
   count (mset (list sample_getTime (roomy (Array [newer_record, sample_record])))) newer_record
     = 1 \<and>
   sample_getTime (createdAt sample_record) = Some 1714557600000 \<and>
   sample_getTime (createdAt newer_record) = Some 1714638600000 \<and>
   list sample_getTime (roomy (Array [sample_record, newer_record]))
     = [newer_record, sample_record] \<and>
   sorted_wrt
     (\<lambda>a b. \<exists>ta tb. sample_getTime (createdAt a) = Some ta \<and>
               sample_getTime (createdAt b) = Some tb \<and> tb \<le> ta)
     (list sample_getTime (roomy (Array [sample_record, newer_record])))"
proof -
  have c: "create ''fbk_2'' ''2024-05-02T08:30:00.000Z'' sample_input
             (roomy (Array [sample_record]))
             = Inr (newer_record, roomy (Array [newer_record, sample_record]))"
    by (simp add: create_def Let_def roomy_def newer_record_def sample_record_def
                  sample_input_def)
  have r: "readFromStorage (roomy (Array [sample_record])) = [sample_record]"
    "readFromStorage (roomy (Array [sample_record, newer_record])) = [sample_record, newer_record]"
    by (simp_all add: roomy_def)
  have i: "ident sample_record \<noteq> ''fbk_2''"
    by (simp add: sample_idents)
  then have f: "\<forall>r \<in> set (readFromStorage (roomy (Array [sample_record]))). ident r \<noteq> ''fbk_2''"
    by (simp add: r)
  have t: "sample_getTime (createdAt sample_record) = Some 1714557600000"
    "sample_getTime (createdAt newer_record) = Some 1714638600000"
    by (simp_all add: sample_getTime_def sample_record_def newer_record_def)
  then have p: "\<forall>r \<in> set (readFromStorage (roomy (Array [sample_record, newer_record]))).
                  sample_getTime (createdAt r) \<noteq> None"
    by (simp add: r)
  have l: "list sample_getTime (roomy (Array [sample_record, newer_record]))
             = [newer_record, sample_record]"
    by (simp add: list_def array_sort_def r t)
  note th = create_then_list [OF roomy_def f c, where getTime = sample_getTime
      and ?w0.0 = "roomy (Array [sample_record, newer_record])"]
  have m: "mset (list sample_getTime (roomy (Array [newer_record, sample_record])))
             = add_mset newer_record (mset (readFromStorage (roomy (Array [sample_record]))))"
    using th by blast
  have n: "count (mset (list sample_getTime (roomy (Array [newer_record, sample_record]))))
             newer_record = 1"
    using th by blast
  have so: "sorted_wrt
     (\<lambda>a b. \<exists>ta tb. sample_getTime (createdAt a) = Some ta \<and>
               sample_getTime (createdAt b) = Some tb \<and> tb \<le> ta)
     (list sample_getTime (roomy (Array [sample_record, newer_record])))"
    using th p by blast
  have "mset (list sample_getTime (roomy (Array [newer_record, sample_record])))
          = {#newer_record, sample_record#}"
    using m by (simp add: r)
  then show ?thesis
    using c r(1) i n t l so by blast
qed

text \<open>
  The claim C10 as stated fails for \<open>create\<close>: the write is outside any \<^verbatim>\<open>try\<close>, so with
  no item stored and a storage that does not take the new text, \<open>create\<close> rejects.
\<close>

theorem create_full_storage_counterexample:
  "readFromStorage (full Null) = [] \<and>
   create ''fbk_1'' ''2024-05-01T10:00:00.000Z'' sample_input (full Null)
     = Inl QuotaExceededError"
  by (simp add: create_def Let_def full_def)

text \<open>
  C10, as amended. When the stored text is absent, empty, rejected by the JSON parser
  or parsed to a value that is not an array, the operations behave as on an empty
  store: \<open>list\<close> returns the empty list and \<open>updateStatus\<close> returns the not-found value
  and writes nothing, neither of them failing (the exception of the parser is caught
  in \<open>readFromStorage\<close>); \<open>create\<close> returns its record and persists the one-element array
  when the storage accepts that write, and rejects with the error of the write when
  it does not.
\<close>

theorem unreadable_storage_is_empty:
  assumes "c = Null \<or> c = Empty \<or> c = Unparseable \<or> c = Non_array"
  shows "list getTime (Some (Storage c a)) = [] \<and>
         updateStatus now i st (Some (Storage c a)) = Inr (None, Some (Storage c a)) \<and>
         (\<exists>record. ident record = newId \<and> status record = pending \<and>
            (a [record] \<longrightarrow>
               create newId timestamp input (Some (Storage c a))
                 = Inr (record, Some (Storage (Array [record]) a))) \<and>
            (\<not> a [record] \<longrightarrow>
               create newId timestamp input (Some (Storage c a)) = Inl QuotaExceededError))"
proof -
  have r: "readFromStorage (Some (Storage c a)) = []"
    using assms by (rule readFromStorage_unreadable)
  have "list getTime (Some (Storage c a)) = []"
    by (simp add: list_empty r)
  moreover have "updateStatus now i st (Some (Storage c a)) = Inr (None, Some (Storage c a))"
    by (simp add: updateStatus_def r)
  moreover have "\<exists>record. ident record = newId \<and> status record = pending \<and>
            (a [record] \<longrightarrow>
               create newId timestamp input (Some (Storage c a))
                 = Inr (record, Some (Storage (Array [record]) a))) \<and>
            (\<not> a [record] \<longrightarrow>
               create newId timestamp input (Some (Storage c a)) = Inl QuotaExceededError)"
    by (rule exI [of _ "\<lparr>selector = selector input, elementLabel = elementLabel input,
            tagName = tagName input, textPreview = textPreview input,
            htmlPreview = htmlPreview input, pageUrl = pageUrl input,
            context = context input, componentName = componentName input,
            feedbackText = feedbackText input,
            ident = newId, status = pending,
            createdAt = timestamp, updatedAt = timestamp\<rparr>"])
       (simp add: create_def Let_def r)
  ultimately show ?thesis
    by blast
qed

theorem unreadable_storage_is_empty_witness:
  "list sample_getTime (roomy Unparseable) = [] \<and>
   updateStatus ''2024-05-02T08:30:00.000Z'' ''fbk_1'' resolved (roomy Unparseable)
     = Inr (None, roomy Unparseable) \<and>
   create ''fbk_1'' ''2024-05-01T10:00:00.000Z'' sample_input (roomy Unparseable)
     = Inr (sample_record, roomy (Array [sample_record])) \<and>
   list sample_getTime (full Non_array) = [] \<and>
   updateStatus ''2024-05-02T08:30:00.000Z'' ''fbk_1'' resolved (full Non_array)
     = Inr (None, full Non_array) \<and>
   create ''fbk_1'' ''2024-05-01T10:00:00.000Z'' sample_input (full Non_array)
     = Inl QuotaExceededError"
proof -
  have u: "Unparseable = Null \<or> Unparseable = Empty \<or> Unparseable = Unparseable \<or>
           Unparseable = Non_array"
    by simp
  have n: "Non_array = Null \<or> Non_array = Empty \<or> Non_array = Unparseable \<or>
           Non_array = Non_array"
    by simp
  note tu = unreadable_storage_is_empty [OF u, of sample_getTime "\<lambda>records. True"
      "''2024-05-02T08:30:00.000Z''" "''fbk_1''" resolved "''fbk_1''"
      "''2024-05-01T10:00:00.000Z''" sample_input]
  note tn = unreadable_storage_is_empty [OF n, of sample_getTime "\<lambda>records. False"
      "''2024-05-02T08:30:00.000Z''" "''fbk_1''" resolved "''fbk_1''"
      "''2024-05-01T10:00:00.000Z''" sample_input]
  have "list sample_getTime (roomy Unparseable) = [] \<and>
        updateStatus ''2024-05-02T08:30:00.000Z'' ''fbk_1'' resolved (roomy Unparseable)
          = Inr (None, roomy Unparseable)"
    using tu unfolding roomy_def by blast
  moreover have "list sample_getTime (full Non_array) = [] \<and>
        updateStatus ''2024-05-02T08:30:00.000Z'' ''fbk_1'' resolved (full Non_array)
          = Inr (None, full Non_array) \<and>
        create ''fbk_1'' ''2024-05-01T10:00:00.000Z'' sample_input (full Non_array)
          = Inl QuotaExceededError"
    using tn unfolding full_def by blast
  moreover have "create ''fbk_1'' ''2024-05-01T10:00:00.000Z'' sample_input (roomy Unparseable)
          = Inr (sample_record, roomy (Array [sample_record]))"
    using sample_create [of Unparseable] by (simp add: roomy_def)
  ultimately show ?thesis
    by blast
qed

section \<open>Properties of the controller\<close>

lemma snapshot_card_div:
  "sample_snapshotOf card_div =
     \<lparr>selector = ''body > main.layout.wide > div.card.wide'',
      elementLabel = ''<div> '' @ [CHR 0xB7] @ '' Save changes'',
      tagName = ''div'', textPreview = ''Save changes'',
      htmlPreview = ''<div class=card>Save   changes</div>'',
      pageUrl = ''http://localhost:5173/''\<rparr>"
  by code_simp

lemma snapshot_save_button:
  "sample_snapshotOf save_button =
     \<lparr>selector = ''button#save'',
      elementLabel = ''<button> '' @ [CHR 0xB7] @ '' Save'',
      tagName = ''button'', textPreview = ''Save'',
      htmlPreview = ''<button id=save>Save</button>'',
      pageUrl = ''http://localhost:5173/''\<rparr>"
  by code_simp

text \<open>
  C2. The draft installed by a selection carries the feedback text of the previous draft
  when there is one and its selector equals the selector of the new snapshot, and the
  empty text otherwise.
\<close>

theorem select_feedbackText:
  "\<exists>d. draft (onElementSelect snapshotOf element st) = Some d \<and>
       feedbackText d =
         (case draft st of
            None \<Rightarrow> ''''
          | Some previous \<Rightarrow>
              if selector previous = selector (snapshotOf element) then feedbackText previous
              else '''')"
  by (cases "draft st") (auto simp: onElementSelect_def installDraft_def Let_def)

theorem select_feedbackText_witness:
  "(\<exists>d. draft (onElementSelect sample_snapshotOf card_div
              \<lparr>contextToken = 1,
               draft = Some ((installDraft (sample_snapshotOf card_div) None)
                               \<lparr>feedbackText := ''too small''\<rparr>),
               inFlight = []\<rparr>) = Some d \<and>
        feedbackText d = ''too small'') \<and>
   (\<exists>d. draft (onElementSelect sample_snapshotOf save_button
              \<lparr>contextToken = 1,
               draft = Some ((installDraft (sample_snapshotOf card_div) None)
                               \<lparr>feedbackText := ''too small''\<rparr>),
               inFlight = []\<rparr>) = Some d \<and>
        feedbackText d = '''') \<and>
   (\<exists>d. draft (onElementSelect sample_snapshotOf card_div initial) = Some d \<and>
        feedbackText d = '''')"
  using select_feedbackText [of sample_snapshotOf card_div
          "\<lparr>contextToken = 1,
            draft = Some ((installDraft (sample_snapshotOf card_div) None)
                            \<lparr>feedbackText := ''too small''\<rparr>),
            inFlight = []\<rparr>"]
        select_feedbackText [of sample_snapshotOf save_button
          "\<lparr>contextToken = 1,
            draft = Some ((installDraft (sample_snapshotOf card_div) None)
                            \<lparr>feedbackText := ''too small''\<rparr>),
            inFlight = []\<rparr>"]
        select_feedbackText [of sample_snapshotOf card_div initial]
  by (simp add: installDraft_def snapshot_card_div snapshot_save_button initial_def)

text \<open>
  C5. When the call is rejected while its token is still the current one and the
  installed draft has the selector of the call's snapshot, the handler sets
  \<open>isContextPending\<close> to false and changes nothing else: every other field of the draft,
  \<open>context\<close> and \<open>componentName\<close> among them, and the token are as before.
\<close>

theorem rejected_clears_only_pending:
  assumes "contextToken st = currentToken"
    and "draft st = Some previous"
    and "selector previous = selector snapshot"
  shows "onRejected currentToken snapshot st = st\<lparr>draft := Some (previous\<lparr>isContextPending := False\<rparr>)\<rparr> \<and>
         (\<exists>d. draft (onRejected currentToken snapshot st) = Some d \<and>
              isContextPending d = False \<and>
              context d = context previous \<and> componentName d = componentName previous \<and>
              feedbackText d = feedbackText previous \<and>
              selector d = selector previous \<and> elementLabel d = elementLabel previous \<and>
              tagName d = tagName previous \<and> textPreview d = textPreview previous \<and>
              htmlPreview d = htmlPreview previous \<and> pageUrl d = pageUrl previous) \<and>
         (map_of (inFlight st) currentToken = Some snapshot \<longrightarrow>
            draft (step snapshotOf st (Settle currentToken Rejected))
              = Some (previous\<lparr>isContextPending := False\<rparr>))"
  using assms by (simp add: onRejected_def clearPending_def)

theorem rejected_clears_only_pending_witness:
  "contextToken (onElementSelect sample_snapshotOf card_div initial) = 1 \<and>
   draft (onElementSelect sample_snapshotOf card_div initial)
     = Some (installDraft (sample_snapshotOf card_div) None) \<and>
   selector (installDraft (sample_snapshotOf card_div) None) = selector (sample_snapshotOf card_div) \<and>
   map_of (inFlight (onElementSelect sample_snapshotOf card_div initial)) 1
     = Some (sample_snapshotOf card_div) \<and>
   draft (step sample_snapshotOf (onElementSelect sample_snapshotOf card_div initial)
            (Settle 1 Rejected))
     = Some \<lparr>selector = ''body > main.layout.wide > div.card.wide'',
             elementLabel = ''<div> '' @ [CHR 0xB7] @ '' Save changes'',
             tagName = ''div'', textPreview = ''Save changes'',
             htmlPreview = ''<div class=card>Save   changes</div>'',
             pageUrl = ''http://localhost:5173/'',
             context = ''<div class=card>Save   changes</div>'',
             componentName = None, feedbackText = '''', isContextPending = False\<rparr>"
proof -
  have t: "contextToken (onElementSelect sample_snapshotOf card_div initial) = 1"
    by (simp add: onElementSelect_def initial_def Let_def)
  have d: "draft (onElementSelect sample_snapshotOf card_div initial)
             = Some (installDraft (sample_snapshotOf card_div) None)"
    by (simp add: onElementSelect_def initial_def Let_def)
  have s: "selector (installDraft (sample_snapshotOf card_div) None)
             = selector (sample_snapshotOf card_div)"
    by (simp add: installDraft_def)
  have m: "map_of (inFlight (onElementSelect sample_snapshotOf card_div initial)) 1
             = Some (sample_snapshotOf card_div)"
    by (simp add: onElementSelect_def initial_def Let_def)
  from rejected_clears_only_pending [OF t d s, of sample_snapshotOf] m
  have "draft (step sample_snapshotOf (onElementSelect sample_snapshotOf card_div initial)
                 (Settle 1 Rejected))
          = Some ((installDraft (sample_snapshotOf card_div) None)\<lparr>isContextPending := False\<rparr>)"
    by blast
  then show ?thesis
    using t d s m by (simp add: installDraft_def snapshot_card_div)
qed

lemma map_of_filter_fst:
  "map_of (filter (\<lambda>call. fst call \<noteq> k) xs) n = (if n = k then None else map_of xs n)"
  by (induction xs) auto

lemma run_Nil: "run snapshotOf [] st = st"
  by (simp add: run_def)

lemma run_Cons: "run snapshotOf (ev # evs) st = run snapshotOf evs (step snapshotOf st ev)"
  by (simp add: run_def)

lemma run_append: "run snapshotOf (xs @ ys) st = run snapshotOf ys (run snapshotOf xs st)"
  by (simp add: run_def)

text \<open>A settlement carrying a token other than the current one leaves the draft, the
  token and the other calls in flight as they are.\<close>

lemma step_stale:
  assumes "contextToken st \<noteq> k"
  shows "draft (step snapshotOf st (Settle k r)) = draft st"
    and "contextToken (step snapshotOf st (Settle k r)) = contextToken st"
    and "n \<noteq> k \<Longrightarrow> map_of (inFlight (step snapshotOf st (Settle k r))) n = map_of (inFlight st) n"
  using assms
  by (auto simp: onFulfilled_def onRejected_def map_of_filter_fst Let_def
           split: option.split settlement.split)

text \<open>The settlement of the current token reads the token, the draft and the call in
  flight for that token only.\<close>

lemma step_current:
  assumes "contextToken st1 = n" and "contextToken st2 = n"
    and "draft st1 = draft st2"
    and "map_of (inFlight st1) n = map_of (inFlight st2) n"
  shows "contextToken (step snapshotOf st1 (Settle n r)) = n"
    and "contextToken (step snapshotOf st2 (Settle n r)) = n"
    and "draft (step snapshotOf st1 (Settle n r)) = draft (step snapshotOf st2 (Settle n r))"
    and "map_of (inFlight (step snapshotOf st1 (Settle n r))) n
           = map_of (inFlight (step snapshotOf st2 (Settle n r))) n"
  using assms
  by (auto simp: onFulfilled_def onRejected_def map_of_filter_fst Let_def
           split: option.split settlement.split)

lemma run_settlements_filter:
  assumes "\<forall>ev \<in> set post. \<not> isSelect ev"
    and "contextToken st1 = n" and "contextToken st2 = n"
    and "draft st1 = draft st2"
    and "map_of (inFlight st1) n = map_of (inFlight st2) n"
  shows "draft (run snapshotOf post st1) = draft (run snapshotOf (filter (settles n) post) st2)"
  using assms
proof (induction post arbitrary: st1 st2)
  case Nil
  then show ?case by (simp add: run_Nil)
next
  case (Cons ev post)
  show ?case
  proof (cases ev)
    case (Select e)
    with Cons.prems(1) show ?thesis by simp
  next
    case (Settle k r)
    show ?thesis
    proof (cases "k = n")
      case True
      note c = step_current [OF Cons.prems(2,3,4,5), of snapshotOf r]
      have "\<forall>ev \<in> set post. \<not> isSelect ev"
        using Cons.prems(1) by simp
      then have "draft (run snapshotOf post (step snapshotOf st1 (Settle n r)))
              = draft (run snapshotOf (filter (settles n) post) (step snapshotOf st2 (Settle n r)))"
        using c by (intro Cons.IH)
      with True Settle show ?thesis
        by (simp add: run_Cons)
    next
      case False
      have ne: "contextToken st1 \<noteq> k"
        using Cons.prems(2) False by simp
      have "\<forall>ev \<in> set post. \<not> isSelect ev"
        using Cons.prems(1) by simp
      moreover have "contextToken (step snapshotOf st1 (Settle k r)) = n"
        using step_stale(2) [OF ne] Cons.prems(2) by simp
      moreover have "draft (step snapshotOf st1 (Settle k r)) = draft st2"
        using step_stale(1) [OF ne] Cons.prems(4) by simp
      moreover have "map_of (inFlight (step snapshotOf st1 (Settle k r))) n
                       = map_of (inFlight st2) n"
        using step_stale(3) [OF ne, of n] False Cons.prems(5) by simp
      ultimately have "draft (run snapshotOf post (step snapshotOf st1 (Settle k r)))
              = draft (run snapshotOf (filter (settles n) post) st2)"
        using Cons.prems(3) by (intro Cons.IH)
      with False Settle show ?thesis
        by (simp add: run_Cons)
    qed
  qed
qed


text \<open>Tokens in flight never exceed the counter, so the token of a new call is fresh.\<close>

lemma step_tokens_bounded:
  assumes "\<forall>call \<in> set (inFlight st). fst call \<le> contextToken st"
  shows "\<forall>call \<in> set (inFlight (step snapshotOf st ev)). fst call \<le> contextToken (step snapshotOf st ev)"
proof (cases ev)
  case (Select e)
  with assms show ?thesis
    by (auto simp: onElementSelect_def Let_def)
next
  case (Settle k r)
  with assms show ?thesis
    by (auto simp: onFulfilled_def onRejected_def Let_def split: option.split settlement.split)
qed

lemma run_tokens_bounded:
  assumes "\<forall>call \<in> set (inFlight st). fst call \<le> contextToken st"
  shows "\<forall>call \<in> set (inFlight (run snapshotOf evs st)). fst call \<le> contextToken (run snapshotOf evs st)"
  using assms
proof (induction evs arbitrary: st)
  case Nil
  then show ?case by (simp add: run_Nil)
next
  case (Cons ev evs)
  from step_tokens_bounded [OF Cons.prems]
  show ?case
    unfolding run_Cons by (rule Cons.IH)
qed

lemma select_installs:
  assumes "\<forall>call \<in> set (inFlight st). fst call \<le> contextToken st"
  shows "contextToken (step snapshotOf st (Select b)) = Suc (contextToken st)"
    and "draft (step snapshotOf st (Select b)) = Some (installDraft (snapshotOf b) (draft st))"
    and "map_of (inFlight (step snapshotOf st (Select b))) (Suc (contextToken st))
           = Some (snapshotOf b)"
proof -
  have "Suc (contextToken st) \<notin> fst ` set (inFlight st)"
    using assms by fastforce
  then have "map_of (inFlight st) (Suc (contextToken st)) = None"
    by (simp add: map_of_eq_None_iff)
  then show "map_of (inFlight (step snapshotOf st (Select b))) (Suc (contextToken st))
           = Some (snapshotOf b)"
    by (simp add: onElementSelect_def Let_def map_add_def)
qed (simp_all add: onElementSelect_def Let_def)

lemma settle_fulfilled_current:
  assumes "contextToken st = n" and "draft st = Some d"
    and "selector d = selector snapshot"
    and "map_of (inFlight st) n = Some snapshot"
  shows "draft (step snapshotOf st (Settle n (Fulfilled contextText)))
           = Some (d\<lparr>context := contextText, componentName := extractComponentName contextText,
                      isContextPending := False\<rparr>)"
    and "map_of (inFlight (step snapshotOf st (Settle n (Fulfilled contextText)))) n = None"
  using assms
  by (simp_all add: onFulfilled_def mergeContext_def Let_def map_of_filter_fst)

lemma run_settled_noop:
  assumes "map_of (inFlight st) n = None" and "\<forall>ev \<in> set evs. settles n ev"
  shows "run snapshotOf evs st = st"
  using assms(2)
proof (induction evs)
  case Nil
  show ?case by (simp add: run_Nil)
next
  case (Cons ev evs)
  then obtain r where "ev = Settle n r"
    by (cases ev) auto
  then have "step snapshotOf st ev = st"
    using assms(1) by simp
  with Cons show ?case
    by (simp add: run_Cons)
qed

lemma find_filter_Cons:
  "find P xs = Some x \<Longrightarrow> \<exists>others. filter P xs = x # others \<and> (\<forall>y \<in> set others. P y)"
  by (induction xs) (auto split: if_splits)

lemma initial_tokens_bounded: "\<forall>call \<in> set (inFlight initial). fst call \<le> contextToken initial"
  by (simp add: initial_def)

lemma settle_rejected_current:
  assumes "contextToken st = n" and "draft st = Some d"
    and "selector d = selector snapshot"
    and "map_of (inFlight st) n = Some snapshot"
  shows "draft (step snapshotOf st (Settle n Rejected)) = Some (d\<lparr>isContextPending := False\<rparr>)"
    and "map_of (inFlight (step snapshotOf st (Settle n Rejected))) n = None"
  using assms
  by (simp_all add: onRejected_def clearPending_def Let_def map_of_filter_fst)

lemma find_None_filter: "find P xs = None \<Longrightarrow> filter P xs = []"
  by (induction xs) (auto split: if_splits)

text \<open>
  The claim C1 as stated fails where it says that the final \<open>componentName\<close> reflects
  the most recent selection only. The selection handler copies \<open>componentName\<close> from
  the previous draft, and a rejection leaves it: below, the first call is fulfilled
  while its token is current, the second selection is made and its call is rejected.
  Both calls have settled, and the final draft, the second element's, names the
  component of the first.
\<close>

theorem carried_componentName_counterexample:
  "draft (run sample_snapshotOf
            [Select save_button, Settle 1 (Fulfilled ''in Button''),
             Select card_div, Settle 2 Rejected]
            initial)
     = Some \<lparr>selector = ''body > main.layout.wide > div.card.wide'',
             elementLabel = ''<div> '' @ [CHR 0xB7] @ '' Save changes'',
             tagName = ''div'', textPreview = ''Save changes'',
             htmlPreview = ''<div class=card>Save   changes</div>'',
             pageUrl = ''http://localhost:5173/'',
             context = ''<div class=card>Save   changes</div>'',
             componentName = Some ''Button'', feedbackText = '''', isContextPending = False\<rparr> \<and>
   inFlight (run sample_snapshotOf
               [Select save_button, Settle 1 (Fulfilled ''in Button''),
                Select card_div, Settle 2 Rejected]
               initial) = [] \<and>
   extractComponentName ''in Button'' = Some ''Button''"
  by code_simp

text \<open>
  C1, as amended. A settlement that carries a token other than the current one leaves
  the draft as it is. For every run from the initial state in which an element is
  selected and only settlements follow, of any calls, in any order, the final draft
  is the one obtained by dropping every settlement of another token: it depends on the
  draft installed by the last selection and on the settlement of its own call only.
  When the first settlement of that call is a fulfilment with a text, the final draft
  is the installed draft with \<open>context\<close> set to that text, \<open>componentName\<close> to the
  extractor's result on it, and \<open>isContextPending\<close> false. When it is a rejection, the
  final draft is the installed draft with \<open>isContextPending\<close> false, and when the call
  has not settled, the installed draft itself. The installed draft has the HTML preview
  as \<open>context\<close> and the \<open>componentName\<close> of the draft that was in place before the
  selection, which an earlier call may have set while its token was current.
\<close>

theorem latest_selection_wins:
  assumes "\<forall>ev \<in> set post. \<not> isSelect ev"
    and "n = contextToken (run snapshotOf (pre @ [Select b]) initial)"
  shows "(contextToken st \<noteq> k \<longrightarrow> draft (step snapshotOf st (Settle k r)) = draft st) \<and>
         draft (run snapshotOf (pre @ Select b # post) initial)
           = draft (run snapshotOf (filter (settles n) post)
                      (run snapshotOf (pre @ [Select b]) initial)) \<and>
         (find (settles n) post = Some (Settle n (Fulfilled contextText)) \<longrightarrow>
            draft (run snapshotOf (pre @ Select b # post) initial)
              = Some ((installDraft (snapshotOf b) (draft (run snapshotOf pre initial)))
                        \<lparr>context := contextText, componentName := extractComponentName contextText,
                         isContextPending := False\<rparr>)) \<and>
         (find (settles n) post = Some (Settle n Rejected) \<longrightarrow>
            draft (run snapshotOf (pre @ Select b # post) initial)
              = Some ((installDraft (snapshotOf b) (draft (run snapshotOf pre initial)))
                        \<lparr>isContextPending := False\<rparr>)) \<and>
         (find (settles n) post = None \<longrightarrow>
            draft (run snapshotOf (pre @ Select b # post) initial)
              = Some (installDraft (snapshotOf b) (draft (run snapshotOf pre initial)))) \<and>
         context (installDraft (snapshotOf b) previous) = htmlPreview (snapshotOf b) \<and>
         componentName (installDraft (snapshotOf b) previous)
           = (case previous of None \<Rightarrow> None | Some p \<Rightarrow> componentName p)"
proof -
  let ?s = "run snapshotOf pre initial"
  let ?sb = "run snapshotOf (pre @ [Select b]) initial"
  let ?d0 = "installDraft (snapshotOf b) (draft ?s)"
  have sb: "?sb = step snapshotOf ?s (Select b)"
    by (simp add: run_append run_Cons run_Nil)
  have bounded: "\<forall>call \<in> set (inFlight ?s). fst call \<le> contextToken ?s"
    by (rule run_tokens_bounded [OF initial_tokens_bounded])
  note sel = select_installs [OF bounded, of snapshotOf b]
  have n: "contextToken ?sb = n"
    using assms(2) by simp
  have n': "n = Suc (contextToken ?s)"
    using n sel(1) sb by simp
  have d: "draft ?sb = Some ?d0"
    using sel(2) sb by simp
  have s: "selector ?d0 = selector (snapshotOf b)"
    by (simp add: installDraft_def)
  have m: "map_of (inFlight ?sb) n = Some (snapshotOf b)"
    using sel(3) sb n' by simp
  have stale: "contextToken st \<noteq> k \<longrightarrow> draft (step snapshotOf st (Settle k r)) = draft st"
    using step_stale(1) [of st k snapshotOf r] by blast
  have split: "run snapshotOf (pre @ Select b # post) initial = run snapshotOf post ?sb"
    by (simp add: run_append run_Cons run_Nil)
  have filt: "draft (run snapshotOf post ?sb) = draft (run snapshotOf (filter (settles n) post) ?sb)"
    by (rule run_settlements_filter [OF assms(1) n n refl refl])
  have ful: "draft (run snapshotOf (filter (settles n) post) ?sb)
               = Some (?d0\<lparr>context := contextText, componentName := extractComponentName contextText,
                            isContextPending := False\<rparr>)"
    if f: "find (settles n) post = Some (Settle n (Fulfilled contextText))"
  proof -
    from find_filter_Cons [OF f] obtain others where
      o: "filter (settles n) post = Settle n (Fulfilled contextText) # others"
      and a: "\<forall>y \<in> set others. settles n y"
      by blast
    note sf = settle_fulfilled_current [OF n d s m, of snapshotOf contextText]
    have "run snapshotOf others (step snapshotOf ?sb (Settle n (Fulfilled contextText)))
            = step snapshotOf ?sb (Settle n (Fulfilled contextText))"
      by (rule run_settled_noop [OF sf(2) a])
    with sf(1) o show ?thesis
      by (simp add: run_Cons)
  qed
  have rej: "draft (run snapshotOf (filter (settles n) post) ?sb)
               = Some (?d0\<lparr>isContextPending := False\<rparr>)"
    if f: "find (settles n) post = Some (Settle n Rejected)"
  proof -
    from find_filter_Cons [OF f] obtain others where
      o: "filter (settles n) post = Settle n Rejected # others"
      and a: "\<forall>y \<in> set others. settles n y"
      by blast
    note sr = settle_rejected_current [OF n d s m, of snapshotOf]
    have "run snapshotOf others (step snapshotOf ?sb (Settle n Rejected))
            = step snapshotOf ?sb (Settle n Rejected)"
      by (rule run_settled_noop [OF sr(2) a])
    with sr(1) o show ?thesis
      by (simp add: run_Cons)
  qed
  have pend: "draft (run snapshotOf (filter (settles n) post) ?sb) = Some ?d0"
    if f: "find (settles n) post = None"
    using find_None_filter [OF f] d by (simp add: run_Nil)
  have inst: "context (installDraft (snapshotOf b) previous) = htmlPreview (snapshotOf b)"
    "componentName (installDraft (snapshotOf b) previous)
       = (case previous of None \<Rightarrow> None | Some p \<Rightarrow> componentName p)"
    by (simp_all add: installDraft_def Let_def)
  show ?thesis
    using stale split filt ful rej pend inst by simp
qed

theorem latest_selection_wins_witness:
  "contextToken (run sample_snapshotOf ([Select save_button] @ [Select card_div]) initial) = 2 \<and>
   find (settles 2) [Settle 2 (Fulfilled ''at Card.tsx in Card''), Settle 1 (Fulfilled ''in Button'')]
     = Some (Settle 2 (Fulfilled ''at Card.tsx in Card'')) \<and>
   draft (run sample_snapshotOf
            ([Select save_button] @ Select card_div #
               [Settle 2 (Fulfilled ''at Card.tsx in Card''), Settle 1 (Fulfilled ''in Button'')])
            initial)
     = Some \<lparr>selector = ''body > main.layout.wide > div.card.wide'',
             elementLabel = ''<div> '' @ [CHR 0xB7] @ '' Save changes'',
             tagName = ''div'', textPreview = ''Save changes'',
             htmlPreview = ''<div class=card>Save   changes</div>'',
             pageUrl = ''http://localhost:5173/'',
             context = ''at Card.tsx in Card'',
             componentName = Some ''Card'', feedbackText = '''', isContextPending = False\<rparr> \<and>
   contextToken (run sample_snapshotOf
                   ([Select save_button, Settle 1 (Fulfilled ''in Button'')] @ [Select card_div])
                   initial) = 2 \<and>
   find (settles 2) [Settle 2 Rejected] = Some (Settle 2 Rejected) \<and>
   draft (run sample_snapshotOf
            ([Select save_button, Settle 1 (Fulfilled ''in Button'')] @ Select card_div #
               [Settle 2 Rejected])
            initial)
     = Some \<lparr>selector = ''body > main.layout.wide > div.card.wide'',
             elementLabel = ''<div> '' @ [CHR 0xB7] @ '' Save changes'',
             tagName = ''div'', textPreview = ''Save changes'',
             htmlPreview = ''<div class=card>Save   changes</div>'',
             pageUrl = ''http://localhost:5173/'',
             context = ''<div class=card>Save   changes</div>'',
             componentName = Some ''Button'', feedbackText = '''', isContextPending = False\<rparr> \<and>
   find (settles 2) [Settle 1 (Fulfilled ''in Button'')] = None \<and>
   draft (run sample_snapshotOf
            ([Select save_button] @ Select card_div # [Settle 1 (Fulfilled ''in Button'')])
            initial)
     = Some \<lparr>selector = ''body > main.layout.wide > div.card.wide'',
             elementLabel = ''<div> '' @ [CHR 0xB7] @ '' Save changes'',
             tagName = ''div'', textPreview = ''Save changes'',
             htmlPreview = ''<div class=card>Save   changes</div>'',
             pageUrl = ''http://localhost:5173/'',
             context = ''<div class=card>Save   changes</div>'',
             componentName = None, feedbackText = '''', isContextPending = True\<rparr>"
proof -
  let ?A = "[Select save_button]"
  let ?A' = "[Select save_button, Settle 1 (Fulfilled ''in Button'')]"
  let ?P1 = "[Settle 2 (Fulfilled ''at Card.tsx in Card''), Settle 1 (Fulfilled ''in Button'')]"
  let ?P2 = "[Settle 2 Rejected]"
  let ?P3 = "[Settle 1 (Fulfilled ''in Button'')]"
  have h1: "\<forall>ev \<in> set ?P1. \<not> isSelect ev" "\<forall>ev \<in> set ?P2. \<not> isSelect ev"
    "\<forall>ev \<in> set ?P3. \<not> isSelect ev"
    by simp_all
  have h2: "2 = contextToken (run sample_snapshotOf (?A @ [Select card_div]) initial)"
    "2 = contextToken (run sample_snapshotOf (?A' @ [Select card_div]) initial)"
    by code_simp+
  have f: "find (settles 2) ?P1 = Some (Settle 2 (Fulfilled ''at Card.tsx in Card''))"
    "find (settles 2) ?P2 = Some (Settle 2 Rejected)"
    "find (settles 2) ?P3 = None"
    by simp_all
  have v1: "Some ((installDraft (sample_snapshotOf card_div)
                   (draft (run sample_snapshotOf ?A initial)))
                  \<lparr>context := ''at Card.tsx in Card'',
                   componentName := extractComponentName ''at Card.tsx in Card'',
                   isContextPending := False\<rparr>)
           = Some \<lparr>selector = ''body > main.layout.wide > div.card.wide'',
               elementLabel = ''<div> '' @ [CHR 0xB7] @ '' Save changes'',
               tagName = ''div'', textPreview = ''Save changes'',
               htmlPreview = ''<div class=card>Save   changes</div>'',
               pageUrl = ''http://localhost:5173/'',
               context = ''at Card.tsx in Card'',
               componentName = Some ''Card'', feedbackText = '''', isContextPending = False\<rparr>"
    by code_simp
  have v2: "Some ((installDraft (sample_snapshotOf card_div)
                   (draft (run sample_snapshotOf ?A' initial)))
                  \<lparr>isContextPending := False\<rparr>)
           = Some \<lparr>selector = ''body > main.layout.wide > div.card.wide'',
               elementLabel = ''<div> '' @ [CHR 0xB7] @ '' Save changes'',
               tagName = ''div'', textPreview = ''Save changes'',
               htmlPreview = ''<div class=card>Save   changes</div>'',
               pageUrl = ''http://localhost:5173/'',
               context = ''<div class=card>Save   changes</div>'',
               componentName = Some ''Button'', feedbackText = '''', isContextPending = False\<rparr>"
    by code_simp
  have v3: "Some (installDraft (sample_snapshotOf card_div)
                   (draft (run sample_snapshotOf ?A initial)))
           = Some \<lparr>selector = ''body > main.layout.wide > div.card.wide'',
               elementLabel = ''<div> '' @ [CHR 0xB7] @ '' Save changes'',
               tagName = ''div'', textPreview = ''Save changes'',
               htmlPreview = ''<div class=card>Save   changes</div>'',
               pageUrl = ''http://localhost:5173/'',
               context = ''<div class=card>Save   changes</div>'',
               componentName = None, feedbackText = '''', isContextPending = True\<rparr>"
    by code_simp
  from latest_selection_wins [OF h1(1) h2(1), of initial 0 Rejected "''at Card.tsx in Card''" None]
    f(1)
  have r1: "draft (run sample_snapshotOf (?A @ Select card_div # ?P1) initial)
     = Some ((installDraft (sample_snapshotOf card_div)
                   (draft (run sample_snapshotOf ?A initial)))
                  \<lparr>context := ''at Card.tsx in Card'',
                   componentName := extractComponentName ''at Card.tsx in Card'',
                   isContextPending := False\<rparr>)"
    by blast
  from latest_selection_wins [OF h1(2) h2(2), of initial 0 Rejected "''''" None] f(2)
  have r2: "draft (run sample_snapshotOf (?A' @ Select card_div # ?P2) initial)
     = Some ((installDraft (sample_snapshotOf card_div)
                   (draft (run sample_snapshotOf ?A' initial)))
                  \<lparr>isContextPending := False\<rparr>)"
    by blast
  from latest_selection_wins [OF h1(3) h2(1), of initial 0 Rejected "''''" None] f(3)
  have r3: "draft (run sample_snapshotOf (?A @ Select card_div # ?P3) initial)
     = Some (installDraft (sample_snapshotOf card_div)
                   (draft (run sample_snapshotOf ?A initial)))"
    by blast
  show ?thesis
    using r1 r2 r3 v1 v2 v3 h2 [symmetric] f by (simp only:)
qed

section \<open>Properties of the snapshot builder\<close>

lemma truncated_length:
  "length (if length s > n then take n s @ ''...'' else s) \<le> n + 3"
  by simp

lemma truncated_marker:
  "length (if length s > n then take n s @ ''...'' else s) > n \<Longrightarrow>
   drop n (if length s > n then take n s @ ''...'' else s) = ''...''"
  by (simp split: if_splits)

lemma long_paragraph_previews:
  "textPreview (createElementSnapshot buildSelector ''http://localhost:5173/'' long_paragraph)
     = replicate 120 CHR ''a'' @ ''...''"
  "htmlPreview (createElementSnapshot buildSelector ''http://localhost:5173/'' long_paragraph)
     = ''<p>'' @ replicate 394 CHR ''a'' @ ''</p...''"
  by code_simp+

text \<open>
  The bounds of 120 and 400 characters do not hold: for a paragraph of 394 letters the
  text preview has 123 characters and the HTML preview 403.
\<close>

theorem preview_lengths_counterexample:
  "\<not> length (textPreview (createElementSnapshot buildSelector ''http://localhost:5173/''
                 long_paragraph)) \<le> 120 \<and>
   \<not> length (htmlPreview (createElementSnapshot buildSelector ''http://localhost:5173/''
                 long_paragraph)) \<le> 400"
  by (simp add: long_paragraph_previews)

text \<open>
  C8, as amended. The text preview has at most 123 characters: at most 120 characters of
  the trimmed, white-space-collapsed text, and whatever lies beyond the 120th is the
  three-character marker \<^verbatim>\<open>...\<close>. For an HTML element with non-empty
  \<^verbatim>\<open>outerHTML\<close> the HTML preview has at most 403 characters: the first 400 of the
  markup, followed by the marker when the markup was longer. For any other element the
  HTML preview is the synthetic tag \<^verbatim>\<open><tag />\<close>.
\<close>

theorem preview_lengths:
  "length (textPreview (createElementSnapshot build href element)) \<le> 123 \<and>
   (length (textPreview (createElementSnapshot build href element)) > 120 \<longrightarrow>
      drop 120 (textPreview (createElementSnapshot build href element)) = ''...'') \<and>
   (isHTMLElement element \<and> outerHTML element \<noteq> [] \<longrightarrow>
      length (htmlPreview (createElementSnapshot build href element)) \<le> 403 \<and>
      take 400 (htmlPreview (createElementSnapshot build href element))
        = take 400 (outerHTML element) \<and>
      (length (htmlPreview (createElementSnapshot build href element)) > 400 \<longrightarrow>
         drop 400 (htmlPreview (createElementSnapshot build href element)) = ''...'')) \<and>
   (\<not> (isHTMLElement element \<and> outerHTML element \<noteq> []) \<longrightarrow>
      htmlPreview (createElementSnapshot build href element)
        = ''<'' @ tagName (createElementSnapshot build href element) @ '' />'')"
proof -
  let ?t = "case textContent element of Some t \<Rightarrow> replaceWhiteSpaceRuns (trim t) | None \<Rightarrow> ''''"
  have tp: "textPreview (createElementSnapshot build href element)
              = (if length ?t > 120 then take 120 ?t @ ''...'' else ?t)"
    by (simp add: createElementSnapshot_def Let_def)
  have hp: "htmlPreview (createElementSnapshot build href element)
              = (if length (outerHTML element) > 400 then take 400 (outerHTML element) @ ''...''
                 else outerHTML element)"
    if "isHTMLElement element \<and> outerHTML element \<noteq> []"
    using that by (simp add: createElementSnapshot_def Let_def)
  have hs: "htmlPreview (createElementSnapshot build href element)
              = ''<'' @ tagName (createElementSnapshot build href element) @ '' />''"
    if "\<not> (isHTMLElement element \<and> outerHTML element \<noteq> [])"
    using that by (simp add: createElementSnapshot_def Let_def)
  have t1: "length (textPreview (createElementSnapshot build href element)) \<le> 123"
    unfolding tp using truncated_length [of 120 ?t] by simp
  have t2: "length (textPreview (createElementSnapshot build href element)) > 120 \<longrightarrow>
      drop 120 (textPreview (createElementSnapshot build href element)) = ''...''"
    unfolding tp using truncated_marker [of 120 ?t] by blast
  have h1: "length (htmlPreview (createElementSnapshot build href element)) \<le> 403"
    if "isHTMLElement element \<and> outerHTML element \<noteq> []"
    unfolding hp [OF that] using truncated_length [of 400 "outerHTML element"] by simp
  have h2: "take 400 (htmlPreview (createElementSnapshot build href element))
        = take 400 (outerHTML element)"
    if "isHTMLElement element \<and> outerHTML element \<noteq> []"
    unfolding hp [OF that] by simp
  have h3: "length (htmlPreview (createElementSnapshot build href element)) > 400 \<longrightarrow>
         drop 400 (htmlPreview (createElementSnapshot build href element)) = ''...''"
    if "isHTMLElement element \<and> outerHTML element \<noteq> []"
    unfolding hp [OF that] using truncated_marker [of 400 "outerHTML element"] by blast
  show ?thesis
    using t1 t2 h1 h2 h3 hs by blast
qed

theorem preview_lengths_witness:
  "isHTMLElement long_paragraph \<and> outerHTML long_paragraph \<noteq> [] \<and>
   length (textPreview (createElementSnapshot buildSelector ''http://localhost:5173/''
             long_paragraph)) = 123 \<and>
   drop 120 (textPreview (createElementSnapshot buildSelector ''http://localhost:5173/''
               long_paragraph)) = ''...'' \<and>
   length (htmlPreview (createElementSnapshot buildSelector ''http://localhost:5173/''
             long_paragraph)) = 403 \<and>
   drop 400 (htmlPreview (createElementSnapshot buildSelector ''http://localhost:5173/''
               long_paragraph)) = ''...'' \<and>
   \<not> isHTMLElement logo_svg \<and>
   htmlPreview (createElementSnapshot buildSelector ''http://localhost:5173/'' logo_svg)
     = ''<svg />''"
proof -
  let ?S = "createElementSnapshot buildSelector ''http://localhost:5173/'' long_paragraph"
  have e: "isHTMLElement long_paragraph \<and> outerHTML long_paragraph \<noteq> []"
    by (simp add: long_paragraph_def)
  have lt: "length (textPreview ?S) = 123"
    by (simp add: long_paragraph_previews)
  have lh: "length (htmlPreview ?S) = 403"
    by (simp add: long_paragraph_previews)
  from preview_lengths [of buildSelector "''http://localhost:5173/''" long_paragraph] e
  have "(length (textPreview ?S) > 120 \<longrightarrow> drop 120 (textPreview ?S) = ''...'') \<and>
        (length (htmlPreview ?S) > 400 \<longrightarrow> drop 400 (htmlPreview ?S) = ''...'')"
    by blast
  with lt lh have d: "drop 120 (textPreview ?S) = ''...'' \<and> drop 400 (htmlPreview ?S) = ''...''"
    by simp
  let ?L = "createElementSnapshot buildSelector ''http://localhost:5173/'' logo_svg"
  have n: "\<not> isHTMLElement logo_svg"
    by (simp add: logo_svg_def)
  have g: "tagName ?L = ''svg''"
    by code_simp
  from preview_lengths [of buildSelector "''http://localhost:5173/''" logo_svg] n
  have "htmlPreview ?L = ''<'' @ tagName ?L @ '' />''"
    by blast
  with g have "htmlPreview ?L = ''<svg />''"
    by simp
  with e lt lh d n show ?thesis
    by blast
qed

section \<open>Properties of the selector builder\<close>



















section \<open>Properties of the component-name extractor\<close>

lemma matchAt_in:
  "matchAt p (CHR ''i'' # CHR ''n'' # t) =
     (if wordBoundary p (Some CHR ''i'') \<and> length (dropWhile isWhiteSpace t) < length t then
        (case dropWhile isWhiteSpace t of
           [] \<Rightarrow> None
         | u # others \<Rightarrow> if isUpper u then Some (u # takeWhile isIdentChar others) else None)
      else None)"
  by (simp add: matchAt_def Let_def)

lemma matchAt_not_in:
  "take 2 s \<noteq> ''in'' \<Longrightarrow> matchAt p s = None"
  by (simp add: matchAt_def)

text \<open>
  An attempt that fails on a text still fails when the text is continued by a character
  that is neither white space nor a capital letter (nor the \<open>n\<close> that would complete
  \<open>in\<close>).
\<close>

lemma matchAt_append_None:
  assumes "matchAt p s = None" and "s \<noteq> []"
    and "\<not> isWhiteSpace r" and "\<not> isUpper r" and "r \<noteq> CHR ''n''"
  shows "matchAt p (s @ r # rs) = None"
proof (cases "take 2 (s @ r # rs) = ''in''")
  case False
  then show ?thesis by (rule matchAt_not_in)
next
  case True
  obtain c cs where s: "s = c # cs"
    using assms(2) by (cases s) auto
  have "cs \<noteq> []"
    using True assms(5) s by auto
  then obtain t where t: "s = CHR ''i'' # CHR ''n'' # t"
    using True s by (cases cs) auto
  show ?thesis
  proof (cases "dropWhile isWhiteSpace t")
    case Nil
    then have "\<forall>x \<in> set t. isWhiteSpace x"
      by (metis dropWhile_eq_Nil_conv)
    then have "dropWhile isWhiteSpace (t @ r # rs) = r # rs"
      using assms(3) by (simp add: dropWhile_append2)
    then show ?thesis
      using assms(4) by (simp add: t matchAt_in)
  next
    case (Cons u others)
    then have "\<exists>x \<in> set t. \<not> isWhiteSpace x"
      by (metis dropWhile_eq_Nil_conv list.distinct(1))
    then have d: "dropWhile isWhiteSpace (t @ r # rs) = (u # others) @ r # rs"
      using Cons by (metis dropWhile_append1)
    show ?thesis
      using assms(1) Cons d by (simp add: t matchAt_in split: if_splits)
  qed
qed

text \<open>
  When the pattern has no occurrence in \<open>pre\<close>, the search in \<open>pre\<close> continued by a text
  that starts with such a character goes on at the start of that text.
\<close>

lemma regexSearch_append:
  assumes "regexSearch p pre = None"
    and "\<not> isWhiteSpace r" and "\<not> isUpper r" and "r \<noteq> CHR ''n''"
  shows "regexSearch p (pre @ r # rs)
           = regexSearch (if pre = [] then p else Some (last pre)) (r # rs)"
  using assms(1)
proof (induction pre arbitrary: p)
  case Nil
  show ?case by simp
next
  case (Cons c cs)
  from Cons.prems have m: "matchAt p (c # cs) = None" and s: "regexSearch (Some c) cs = None"
    by (simp_all split: option.splits)
  have "matchAt p ((c # cs) @ r # rs) = None"
    using m assms(2-4) by (intro matchAt_append_None) simp_all
  then have "regexSearch p ((c # cs) @ r # rs) = regexSearch (Some c) (cs @ r # rs)"
    by simp
  also have "\<dots> = regexSearch (if cs = [] then Some c else Some (last cs)) (r # rs)"
    by (rule Cons.IH [OF s])
  finally show ?case
    by simp
qed

lemma isUpper_not_isWhiteSpace: "isUpper u \<Longrightarrow> \<not> isWhiteSpace u"
  by (auto simp: isUpper_def isWhiteSpace_def)

lemma takeWhile_ident:
  assumes "\<forall>c \<in> set us. isIdentChar c" and "post = [] \<or> \<not> isIdentChar (hd post)"
  shows "takeWhile isIdentChar (us @ post) = us"
proof (cases post)
  case Nil
  with assms(1) show ?thesis by simp
next
  case (Cons x xs)
  with assms show ?thesis by (simp add: takeWhile_append2)
qed

text \<open>The attempt at \<open>in\<close>, one space and a capitalised identifier that ends there.\<close>

lemma regexSearch_in_name:
  assumes "case p of None \<Rightarrow> True | Some q \<Rightarrow> \<not> isWordChar q"
    and "isUpper u" and "\<forall>c \<in> set us. isIdentChar c"
    and "post = [] \<or> \<not> isIdentChar (hd post)"
  shows "regexSearch p (''in '' @ (u # us) @ post) = Some (u # us)"
proof -
  have b: "wordBoundary p (Some CHR ''i'')"
    using assms(1) by (cases p) (simp_all add: wordBoundary_def isWordChar_def)
  have w: "isWhiteSpace CHR '' ''"
    by (simp add: isWhiteSpace_def)
  have "matchAt p (CHR ''i'' # CHR ''n'' # CHR '' '' # (u # us) @ post) = Some (u # us)"
    using b w isUpper_not_isWhiteSpace [OF assms(2)] assms(2) takeWhile_ident [OF assms(3,4)]
    by (simp add: matchAt_in)
  then show ?thesis
    by simp
qed

lemma regexSearch_anonymous:
  "regexSearch p (''in <anonymous>'' @ post) = regexSearch (Some CHR ''>'') post"
  by (simp add: matchAt_def isWhiteSpace_def isUpper_def Let_def)

lemma regexSearch_lower_server:
  "regexSearch p (''in server'' @ post) = regexSearch (Some CHR ''r'') post"
  by (simp add: matchAt_def isWhiteSpace_def isUpper_def Let_def)

lemma in_start: "\<not> isWhiteSpace CHR ''i''" "\<not> isUpper CHR ''i''" "CHR ''i'' \<noteq> CHR ''n''"
  by (simp_all add: isWhiteSpace_def isUpper_def)

text \<open>
  A text without a capital letter has no occurrence of the pattern: a simple way to meet
  the hypothesis of the theorem below.
\<close>

lemma matchAt_Some_capital: "matchAt p s = Some x \<Longrightarrow> \<exists>u \<in> set s. isUpper u"
proof -
  assume a: "matchAt p s = Some x"
  then obtain u others where "dropWhile isWhiteSpace (drop 2 s) = u # others" and "isUpper u"
    by (auto simp: matchAt_def Let_def split: if_splits list.splits)
  then have "u \<in> set (dropWhile isWhiteSpace (drop 2 s))"
    by simp
  then have "u \<in> set s"
    by (meson in_set_dropD set_dropWhileD)
  with \<open>isUpper u\<close> show ?thesis
    by blast
qed

lemma regexSearch_no_capital:
  "\<forall>c \<in> set s. \<not> isUpper c \<Longrightarrow> regexSearch p s = None"
proof (induction s arbitrary: p)
  case Nil
  show ?case by (simp add: matchAt_def)
next
  case (Cons c cs)
  have "matchAt p (c # cs) = None"
    using matchAt_Some_capital [of p "c # cs"] Cons.prems by (cases "matchAt p (c # cs)") auto
  with Cons show ?case
    by simp
qed

text \<open>
  The claim as stated fails, because the first occurrence of the pattern decides: an
  input that contains \<^verbatim>\<open> in Button \<close> after another occurrence yields the other name,
  one in which \<^verbatim>\<open>in\<close> ends a longer word yields nothing, and inputs that contain
  \<^verbatim>\<open>in <anonymous>\<close> or \<^verbatim>\<open>in Server\<close> after an occurrence yield that occurrence's
  name.
\<close>

theorem extractComponentName_counterexample:
  "extractComponentName ''rendered in App in Button (at App.tsx)'' = Some ''App'' \<and>
   extractComponentName ''within Button '' = None \<and>
   extractComponentName ''in Button in <anonymous>'' = Some ''Button'' \<and>
   extractComponentName ''in Button in Server'' = Some ''Button'' \<and>
   extractComponentName ''in Button in server'' = Some ''Button''"
  by code_simp

text \<open>
  C7, as amended. Let the pattern have no occurrence in the text \<open>pre\<close>. If \<open>pre\<close> does not
  end with a word character and \<open>post\<close> does not start with a word character or a dot,
  then \<open>pre\<close>, \<^verbatim>\<open>in Button\<close>, \<open>post\<close> yields \<^verbatim>\<open>Button\<close> and \<open>pre\<close>, \<^verbatim>\<open>in Server\<close>, \<open>post\<close>
  yields nothing. If the pattern has no occurrence in \<open>post\<close> either (read after the
  character that precedes it), then \<open>pre\<close>, \<^verbatim>\<open>in <anonymous>\<close>, \<open>post\<close> and \<open>pre\<close>,
  \<^verbatim>\<open>in server\<close>, \<open>post\<close> yield nothing: a capture starts with a capital letter, so
  neither is an occurrence.
\<close>

theorem extractComponentName_leftmost:
  "(regexSearch None pre = None \<and> (pre = [] \<or> \<not> isWordChar (last pre)) \<and>
    (post = [] \<or> \<not> isIdentChar (hd post)) \<longrightarrow>
      extractComponentName (pre @ ''in Button'' @ post) = Some ''Button'' \<and>
      extractComponentName (pre @ ''in Server'' @ post) = None) \<and>
   (regexSearch None pre = None \<and> regexSearch (Some CHR ''>'') post = None \<longrightarrow>
      extractComponentName (pre @ ''in <anonymous>'' @ post) = None) \<and>
   (regexSearch None pre = None \<and> regexSearch (Some CHR ''r'') post = None \<longrightarrow>
      extractComponentName (pre @ ''in server'' @ post) = None)"
proof -
  let ?p = "if pre = [] then None else Some (last pre)"
  have start: "regexSearch None (pre @ CHR ''i'' # rs) = regexSearch ?p (CHR ''i'' # rs)"
    if "regexSearch None pre = None" for rs
    using regexSearch_append [OF that in_start] by simp
  have name: "regexSearch None (pre @ ''in '' @ (u # us) @ post) = Some (u # us)"
    if "regexSearch None pre = None" and "pre = [] \<or> \<not> isWordChar (last pre)"
      and "post = [] \<or> \<not> isIdentChar (hd post)"
      and "isUpper u" and "\<forall>c \<in> set us. isIdentChar c" for u us
  proof -
    have "case ?p of None \<Rightarrow> True | Some q \<Rightarrow> \<not> isWordChar q"
      using that(2) by auto
    from regexSearch_in_name [OF this that(4,5,3)] start [OF that(1), of "''n '' @ (u # us) @ post"]
    show ?thesis
      by simp
  qed
  have button: "extractComponentName (pre @ ''in Button'' @ post) = Some ''Button''"
    if "regexSearch None pre = None" and "pre = [] \<or> \<not> isWordChar (last pre)"
      and "post = [] \<or> \<not> isIdentChar (hd post)"
  proof -
    have "regexSearch None (pre @ ''in '' @ (CHR ''B'' # ''utton'') @ post) = Some (CHR ''B'' # ''utton'')"
      using that by (intro name) (simp_all add: isUpper_def isIdentChar_def isWordChar_def)
    then show ?thesis
      by (simp add: extractComponentName_def toLowerCase_def toLowerCase_unit_def)
  qed
  have server: "extractComponentName (pre @ ''in Server'' @ post) = None"
    if "regexSearch None pre = None" and "pre = [] \<or> \<not> isWordChar (last pre)"
      and "post = [] \<or> \<not> isIdentChar (hd post)"
  proof -
    have "regexSearch None (pre @ ''in '' @ (CHR ''S'' # ''erver'') @ post) = Some (CHR ''S'' # ''erver'')"
      using that by (intro name) (simp_all add: isUpper_def isIdentChar_def isWordChar_def)
    moreover have "toLowerCase ''Server'' = ''server''"
      by code_simp
    ultimately show ?thesis
      by (simp add: extractComponentName_def)
  qed
  have anonymous: "extractComponentName (pre @ ''in <anonymous>'' @ post) = None"
    if "regexSearch None pre = None" and "regexSearch (Some CHR ''>'') post = None"
    using start [OF that(1), of "''n <anonymous>'' @ post"] regexSearch_anonymous [of ?p post] that(2)
    by (simp add: extractComponentName_def)
  have lower: "extractComponentName (pre @ ''in server'' @ post) = None"
    if "regexSearch None pre = None" and "regexSearch (Some CHR ''r'') post = None"
    using start [OF that(1), of "''n server'' @ post"] regexSearch_lower_server [of ?p post] that(2)
    by (simp add: extractComponentName_def)
  show ?thesis
    by (intro conjI impI; elim conjE; (rule button server anonymous lower; assumption))
qed

theorem extractComponentName_leftmost_witness:
  "regexSearch None ''<button class=Primary> '' = None \<and>
   \<not> isWordChar (last ''<button class=Primary> '') \<and>
   \<not> isIdentChar (hd '' (at App.tsx) in App'') \<and>
   regexSearch (Some CHR ''>'') '' (at index.js)'' = None \<and>
   regexSearch (Some CHR ''r'') '' (at index.js)'' = None \<and>
   extractComponentName (''<button class=Primary> '' @ ''in Button'' @ '' (at App.tsx) in App'')
     = Some ''Button'' \<and>
   extractComponentName (''<button class=Primary> '' @ ''in Server'' @ '' (at App.tsx) in App'')
     = None \<and>
   extractComponentName (''<button class=Primary> '' @ ''in <anonymous>'' @ '' (at index.js)'')
     = None \<and>
   extractComponentName (''<button class=Primary> '' @ ''in server'' @ '' (at index.js)'') = None"
proof -
  have h: "regexSearch None ''<button class=Primary> '' = None"
    "\<not> isWordChar (last ''<button class=Primary> '')"
    "\<not> isIdentChar (hd '' (at App.tsx) in App'')"
    "regexSearch (Some CHR ''>'') '' (at index.js)'' = None"
    "regexSearch (Some CHR ''r'') '' (at index.js)'' = None"
    by code_simp+
  from extractComponentName_leftmost
         [of "''<button class=Primary> ''" "'' (at App.tsx) in App''"]
       extractComponentName_leftmost
         [of "''<button class=Primary> ''" "'' (at index.js)''"] h
  show ?thesis
    by blast
qed

end
